theory Spec2Isabelle
  imports Complex_Main "HOL-Library.Sublist"
begin

section \<open>Numbers of the data frame\<close>

text \<open>
  The numeric columns of the data frame hold double-precision numbers.  A finite number is
  modelled by its exact real value (rounding is not modelled, and the two zeros are one);
  the three special values that the arithmetic of the source can produce, and that decide
  how comparisons and \<open>max()\<close> behave, are explicit.
\<close>

datatype pyfloat = Fin real | PInf | NInf | NaN

fun is_nan :: "pyfloat \<Rightarrow> bool" where
  "is_nan NaN = True"
| "is_nan _ = False"

fun fneg :: "pyfloat \<Rightarrow> pyfloat" where
  "fneg (Fin a) = Fin (- a)"
| "fneg PInf = NInf"
| "fneg NInf = PInf"
| "fneg NaN = NaN"

fun fadd :: "pyfloat \<Rightarrow> pyfloat \<Rightarrow> pyfloat" where
  "fadd NaN _ = NaN"
| "fadd _ NaN = NaN"
| "fadd (Fin a) (Fin b) = Fin (a + b)"
| "fadd PInf NInf = NaN"
| "fadd NInf PInf = NaN"
| "fadd PInf _ = PInf"
| "fadd NInf _ = NInf"
| "fadd _ PInf = PInf"
| "fadd _ NInf = NInf"

definition fsub :: "pyfloat \<Rightarrow> pyfloat \<Rightarrow> pyfloat" where
  "fsub a b = fadd a (fneg b)"

text \<open>The sign of an infinite product or quotient: \<open>True\<close> is positive.\<close>

definition signed_inf :: "bool \<Rightarrow> pyfloat" where
  "signed_inf pos = (if pos then PInf else NInf)"

fun fmul :: "pyfloat \<Rightarrow> pyfloat \<Rightarrow> pyfloat" where
  "fmul NaN _ = NaN"
| "fmul _ NaN = NaN"
| "fmul (Fin a) (Fin b) = Fin (a * b)"
| "fmul (Fin a) PInf = (if a = 0 then NaN else signed_inf (0 < a))"
| "fmul (Fin a) NInf = (if a = 0 then NaN else signed_inf (a < 0))"
| "fmul PInf (Fin b) = (if b = 0 then NaN else signed_inf (0 < b))"
| "fmul NInf (Fin b) = (if b = 0 then NaN else signed_inf (b < 0))"
| "fmul PInf PInf = PInf"
| "fmul PInf NInf = NInf"
| "fmul NInf PInf = NInf"
| "fmul NInf NInf = PInf"

text \<open>
  True division as the data frame library does it: no exception on a zero divisor, but
  an infinity, or NaN for \<open>0 / 0\<close>.
\<close>

fun fdiv :: "pyfloat \<Rightarrow> pyfloat \<Rightarrow> pyfloat" where
  "fdiv NaN _ = NaN"
| "fdiv _ NaN = NaN"
| "fdiv (Fin a) (Fin b) =
     (if b \<noteq> 0 then Fin (a / b) else if a = 0 then NaN else signed_inf (0 < a))"
| "fdiv (Fin a) PInf = Fin 0"
| "fdiv (Fin a) NInf = Fin 0"
| "fdiv PInf (Fin b) = signed_inf (0 \<le> b)"
| "fdiv NInf (Fin b) = signed_inf (b < 0)"
| "fdiv PInf _ = NaN"
| "fdiv NInf _ = NaN"

text \<open>Comparisons: every comparison with NaN is false.\<close>

fun fle :: "pyfloat \<Rightarrow> pyfloat \<Rightarrow> bool" where
  "fle NaN _ = False"
| "fle _ NaN = False"
| "fle (Fin a) (Fin b) = (a \<le> b)"
| "fle NInf _ = True"
| "fle _ PInf = True"
| "fle PInf _ = False"
| "fle _ NInf = False"

definition fge :: "pyfloat \<Rightarrow> pyfloat \<Rightarrow> bool" where
  "fge a b = fle b a"

definition fgt :: "pyfloat \<Rightarrow> pyfloat \<Rightarrow> bool" where
  "fgt a b = (fle b a \<and> \<not> fle a b)"


section \<open>Strings: \<open>str.split()\<close> and \<open>float()\<close>\<close>

text \<open>
  A \<open>char\<close> stands for a code point below 256.  \<open>is_space\<close> is \<open>str.isspace\<close> on these
  code points, the separators of \<open>split()\<close> without arguments.
\<close>

definition is_space :: "char \<Rightarrow> bool" where
  "is_space c = ((of_char c :: nat) \<in> {9, 10, 11, 12, 13, 28, 29, 30, 31, 32, 133, 160})"

definition is_digit :: "char \<Rightarrow> bool" where
  "is_digit c = (48 \<le> (of_char c :: nat) \<and> (of_char c :: nat) \<le> 57)"

definition digit_val :: "char \<Rightarrow> nat" where
  "digit_val c = of_char c - 48"

definition lower :: "char \<Rightarrow> char" where
  "lower c = (if 65 \<le> (of_char c :: nat) \<and> (of_char c :: nat) \<le> 90
              then char_of ((of_char c :: nat) + 32) else c)"

text \<open>
  \<open>x.split()\<close>: a scan that cuts at every run of white space and keeps no empty piece.
  \<open>cur\<close> is the piece being read, reversed.
\<close>

fun split_scan :: "string \<Rightarrow> string \<Rightarrow> string list" where
  "split_scan cur [] = (if cur = [] then [] else [rev cur])"
| "split_scan cur (c # cs) =
     (if is_space c then (if cur = [] then split_scan [] cs else rev cur # split_scan [] cs)
      else split_scan (c # cur) cs)"

definition py_split :: "string \<Rightarrow> string list" where
  "py_split x = split_scan [] x"

datatype py_exn = IndexError | ValueError

text \<open>
  \<open>float(s)\<close> on a string without white space.  The grammar is Python's:
  an optional sign, then \<open>inf\<close>, \<open>infinity\<close> or \<open>nan\<close> in any case, or a decimal number
  with an optional fraction and exponent, where single underscores may stand between
  digits.  Anything else raises \<open>ValueError\<close>.
\<close>

fun digit_run :: "string \<Rightarrow> string \<times> string" where
  "digit_run [] = ([], [])"
| "digit_run [c] = (if is_digit c then ([c], []) else ([], [c]))"
| "digit_run (c # d # cs) =
     (if \<not> is_digit c then ([], c # d # cs)
      else if is_digit d then (let (ds, r) = digit_run (d # cs) in (c # ds, r))
      else if d = CHR ''_'' then
        (case cs of
           [] \<Rightarrow> ([c], d # cs)
         | e # es \<Rightarrow>
             if is_digit e then (let (ds, r) = digit_run (e # es) in (c # ds, r))
             else ([c], d # cs))
      else ([c], d # cs))"

definition digits_value :: "string \<Rightarrow> nat" where
  "digits_value ds = foldl (\<lambda>n c. 10 * n + digit_val c) 0 ds"

definition strip_sign :: "string \<Rightarrow> bool \<times> string" where
  "strip_sign s =
     (case s of
        [] \<Rightarrow> (False, [])
      | c # cs \<Rightarrow>
          if c = CHR ''-'' then (True, cs)
          else if c = CHR ''+'' then (False, cs)
          else (False, s))"

definition exponent_part :: "real \<Rightarrow> string \<Rightarrow> real option" where
  "exponent_part m r =
     (case r of
        [] \<Rightarrow> Some m
      | c # t \<Rightarrow>
          if c = CHR ''e'' \<or> c = CHR ''E'' then
            (let (neg, t') = strip_sign t; (ds, r') = digit_run t'
             in if ds = [] \<or> r' \<noteq> [] then None
                else if neg then Some (m / 10 ^ digits_value ds)
                else Some (m * 10 ^ digits_value ds))
          else None)"

definition mantissa :: "string \<Rightarrow> string \<Rightarrow> real" where
  "mantissa ip fp = real (digits_value ip) + real (digits_value fp) / 10 ^ length fp"

definition decimal_number :: "string \<Rightarrow> real option" where
  "decimal_number body =
     (let (ip, r1) = digit_run body
      in case r1 of
           [] \<Rightarrow> if ip = [] then None else Some (mantissa ip [])
         | c # t \<Rightarrow>
             if c = CHR ''.'' then
               (let (fp, r2) = digit_run t
                in if ip = [] \<and> fp = [] then None else exponent_part (mantissa ip fp) r2)
             else if ip = [] then None
             else exponent_part (mantissa ip []) r1)"

definition py_float :: "string \<Rightarrow> py_exn + pyfloat" where
  "py_float s =
     (let (neg, body) = strip_sign s; low = map lower body
      in if low = ''inf'' \<or> low = ''infinity'' then Inr (if neg then NInf else PInf)
         else if low = ''nan'' then Inr NaN
         else case decimal_number body of
                None \<Rightarrow> Inl ValueError
              | Some v \<Rightarrow> Inr (Fin (if neg then - v else v)))"

text \<open>The function applied to every cell of the True Speed column:
  \<open>lambda x: float(x.split()[0]) / 1000\<close>.\<close>

definition speed_to_S :: "string \<Rightarrow> py_exn + pyfloat" where
  "speed_to_S x =
     (case py_split x of
        [] \<Rightarrow> Inl IndexError
      | t # _ \<Rightarrow>
          (case py_float t of
             Inl e \<Rightarrow> Inl e
           | Inr v \<Rightarrow> Inr (fdiv v (Fin 1000))))"


section \<open>The data frame\<close>

text \<open>
  A loaded row.  The fields are the columns that the score computation and the filters
  read; \<open>Other_Columns\<close> holds the remaining cells (coordinates and the columns that are
  only shown in the tooltip of the map), which no modelled operation reads.
\<close>

record raw_row =
  Province :: string
  District :: string
  Sub_district :: string
  Happy_Block :: string
  Household :: pyfloat
  Install :: pyfloat
  Churn :: pyfloat
  Port_Use :: pyfloat
  Port_Utilization :: pyfloat
  Market_Share_True :: pyfloat
  True_Speed :: string
  Net_Add :: pyfloat
  Other_Columns :: "string list"

text \<open>A row after preprocessing: the loaded columns and the six assigned ones.\<close>

record row = raw_row +
  col_H :: pyfloat
  col_I :: pyfloat
  col_1_C :: pyfloat
  col_M :: pyfloat
  col_S :: pyfloat
  Potential_Score :: pyfloat

type_synonym series = "pyfloat list"

subsection \<open>Operations on a column\<close>

definition fmax2 :: "pyfloat \<Rightarrow> pyfloat \<Rightarrow> pyfloat" where
  "fmax2 a b = (if fle a b then b else a)"

definition fmin2 :: "pyfloat \<Rightarrow> pyfloat \<Rightarrow> pyfloat" where
  "fmin2 a b = (if fle b a then b else a)"

text \<open>\<open>Series.max()\<close> and \<open>Series.min()\<close> skip NaN; on a column with no number they
  return NaN.\<close>

definition series_max :: "series \<Rightarrow> pyfloat" where
  "series_max xs =
     (case filter (\<lambda>x. \<not> is_nan x) xs of [] \<Rightarrow> NaN | y # ys \<Rightarrow> foldl fmax2 y ys)"

definition series_min :: "series \<Rightarrow> pyfloat" where
  "series_min xs =
     (case filter (\<lambda>x. \<not> is_nan x) xs of [] \<Rightarrow> NaN | y # ys \<Rightarrow> foldl fmin2 y ys)"

definition div_scalar :: "series \<Rightarrow> pyfloat \<Rightarrow> series" where
  "div_scalar xs d = map (\<lambda>x. fdiv x d) xs"

definition mul_scalar :: "pyfloat \<Rightarrow> series \<Rightarrow> series" where
  "mul_scalar w xs = map (\<lambda>x. fmul w x) xs"

definition times_scalar :: "series \<Rightarrow> pyfloat \<Rightarrow> series" where
  "times_scalar xs w = map (\<lambda>x. fmul x w) xs"

definition rsub_scalar :: "pyfloat \<Rightarrow> series \<Rightarrow> series" where
  "rsub_scalar a xs = map (\<lambda>x. fsub a x) xs"

definition series_div :: "series \<Rightarrow> series \<Rightarrow> series" where
  "series_div xs ys = map2 fdiv xs ys"

definition series_add :: "series \<Rightarrow> series \<Rightarrow> series" where
  "series_add xs ys = map2 fadd xs ys"

text \<open>\<open>clip(upper=u)\<close>: a value above \<open>u\<close> becomes \<open>u\<close>; NaN stays.\<close>

definition clip_upper :: "series \<Rightarrow> pyfloat \<Rightarrow> series" where
  "clip_upper xs u = map (\<lambda>x. if fgt x u then u else x) xs"

text \<open>\<open>Series.apply(f)\<close>: the first cell on which \<open>f\<close> raises ends the pass.\<close>

fun series_apply :: "('a \<Rightarrow> py_exn + 'b) \<Rightarrow> 'a list \<Rightarrow> py_exn + 'b list" where
  "series_apply f [] = Inr []"
| "series_apply f (x # xs) =
     (case f x of
        Inl e \<Rightarrow> Inl e
      | Inr y \<Rightarrow> (case series_apply f xs of Inl e \<Rightarrow> Inl e | Inr ys \<Rightarrow> Inr (y # ys)))"

subsection \<open>The score computation\<close>

definition W1 :: pyfloat where "W1 = Fin 0.40"
definition W2 :: pyfloat where "W2 = Fin 0.25"
definition W3 :: pyfloat where "W3 = Fin 0.20"
definition W4 :: pyfloat where "W4 = Fin 0.05"
definition W5 :: pyfloat where "W5 = Fin 0.10"

text \<open>The six assigned columns, in the order of the source.  \<open>score_raw\<close> is the first
  value of the column Potential Score, \<open>score_final\<close> the one that replaces it.\<close>

definition calc_H :: "'a raw_row_scheme list \<Rightarrow> series" where
  "calc_H data = div_scalar (map Household data) (series_max (map Household data))"

definition calc_I :: "'a raw_row_scheme list \<Rightarrow> series" where
  "calc_I data = div_scalar (map Install data) (series_max (map Install data))"

definition calc_1_C :: "'a raw_row_scheme list \<Rightarrow> series" where
  "calc_1_C data =
     rsub_scalar (Fin 1) (clip_upper (series_div (map Churn data) (map Port_Use data)) (Fin 1))"

definition calc_M :: "'a raw_row_scheme list \<Rightarrow> series" where
  "calc_M data =
     div_scalar (map Market_Share_True data) (series_max (map Market_Share_True data))"

definition calc_S :: "'a raw_row_scheme list \<Rightarrow> py_exn + series" where
  "calc_S data = series_apply speed_to_S (map True_Speed data)"

definition score_raw :: "series \<Rightarrow> series \<Rightarrow> series \<Rightarrow> series \<Rightarrow> series \<Rightarrow> series" where
  "score_raw h i c m s =
     series_add
       (series_add
          (series_add (series_add (mul_scalar W1 h) (mul_scalar W2 i)) (mul_scalar W3 c))
          (mul_scalar W4 m))
       (mul_scalar W5 s)"

definition score_final :: "series \<Rightarrow> series" where
  "score_final p = times_scalar (div_scalar p (series_max p)) (Fin 100)"

text \<open>One row with its six new cells.\<close>

definition assign :: "raw_row \<Rightarrow> pyfloat \<times> pyfloat \<times> pyfloat \<times> pyfloat \<times> pyfloat \<times> pyfloat \<Rightarrow> row" where
  "assign r v =
     (case v of (h, i, c, m, s, p) \<Rightarrow>
        \<lparr>Province = Province r, District = District r, Sub_district = Sub_district r,
         Happy_Block = Happy_Block r, Household = Household r, Install = Install r,
         Churn = Churn r, Port_Use = Port_Use r, Port_Utilization = Port_Utilization r,
         Market_Share_True = Market_Share_True r, True_Speed = True_Speed r,
         Net_Add = Net_Add r, Other_Columns = Other_Columns r,
         col_H = h, col_I = i, col_1_C = c, col_M = m, col_S = s, Potential_Score = p\<rparr>)"

text \<open>
  The preprocessing block.  Every exception inside it is caught, the message is printed
  and the process exits; the only statement that can raise on a well-typed frame is the
  parsing of True Speed.
\<close>

definition preprocess :: "raw_row list \<Rightarrow> py_exn + row list" where
  "preprocess data =
     (let h = calc_H data;
          i = calc_I data;
          c = calc_1_C data;
          m = calc_M data
      in case calc_S data of
           Inl e \<Rightarrow> Inl e
         | Inr s \<Rightarrow>
             (let p = score_raw h i c m s;
                  p' = score_final p
              in Inr (map2 assign data (zip h (zip i (zip c (zip m (zip s p'))))))))"


subsection \<open>The score formula as the specification words it\<close>

definition weighted_sum ::
  "pyfloat \<Rightarrow> pyfloat \<Rightarrow> pyfloat \<Rightarrow> pyfloat \<Rightarrow> pyfloat \<Rightarrow> pyfloat" where
  "weighted_sum h i c m s =
     fadd (fadd (fadd (fadd (fmul (Fin 0.40) h) (fmul (Fin 0.25) i)) (fmul (Fin 0.20) c))
             (fmul (Fin 0.05) m))
       (fmul (Fin 0.10) s)"

definition raw_of_row :: "row \<Rightarrow> pyfloat" where
  "raw_of_row r = weighted_sum (col_H r) (col_I r) (col_1_C r) (col_M r) (col_S r)"

text \<open>A finite number that is not negative, and one that is positive.\<close>

fun nonneg :: "pyfloat \<Rightarrow> bool" where
  "nonneg (Fin a) = (0 \<le> a)"
| "nonneg _ = False"

fun positive :: "pyfloat \<Rightarrow> bool" where
  "positive (Fin a) = (0 < a)"
| "positive _ = False"

definition in_0_100 :: "pyfloat \<Rightarrow> bool" where
  "in_0_100 v = (fle (Fin 0) v \<and> fle v (Fin 100))"

section \<open>Loading and start-up\<close>

text \<open>
  \<open>pd.read_csv\<close> is the library's reader and is modelled by what it is documented to do
  with the arguments of the source.  A file either cannot be read at all, with a
  \<open>ParserError\<close> or with another exception, or it is a sequence of data lines, each of
  which the tokenizer turns into a row or finds bad.  \<open>on_bad_lines\<close> decides what a bad
  line does.
\<close>

datatype csv_line = Good_Line raw_row | Bad_Line

datatype csv_file = Parser_Failure string | Other_Failure string | Lines "csv_line list"

datatype bad_lines_policy = Policy_error | Policy_warn | Policy_skip

datatype raised = ParserError string | Other_Exception string | Preprocessing py_exn

fun good_rows :: "csv_line list \<Rightarrow> raw_row list" where
  "good_rows [] = []"
| "good_rows (Good_Line r # ls) = r # good_rows ls"
| "good_rows (Bad_Line # ls) = good_rows ls"

definition read_csv :: "bad_lines_policy \<Rightarrow> csv_file \<Rightarrow> raised + raw_row list" where
  "read_csv on_bad_lines f =
     (case f of
        Parser_Failure msg \<Rightarrow> Inl (ParserError msg)
      | Other_Failure msg \<Rightarrow> Inl (Other_Exception msg)
      | Lines ls \<Rightarrow>
          (case on_bad_lines of
             Policy_error \<Rightarrow>
               if Bad_Line \<in> set ls then Inl (ParserError ''Error tokenizing data'')
               else Inr (good_rows ls)
           | Policy_warn \<Rightarrow> Inr (good_rows ls)
           | Policy_skip \<Rightarrow> Inr (good_rows ls)))"

text \<open>What \<open>print\<close> writes: a text, or a text followed by an exception.\<close>

datatype printed = Print string | Print_Exn string raised

text \<open>The \<open>try\<close> block around the reader.  \<open>None\<close> is \<open>exit()\<close>.\<close>

definition load :: "csv_file \<Rightarrow> printed list \<times> raw_row list option" where
  "load f =
     (case read_csv Policy_skip f of
        Inr data \<Rightarrow> ([Print ''Dataset loaded successfully.''], Some data)
      | Inl (ParserError e) \<Rightarrow>
          ([Print_Exn ''ParserError while loading the dataset:'' (ParserError e)], None)
      | Inl e \<Rightarrow> ([Print_Exn ''Unexpected error while loading the dataset:'' e], None))"

datatype outcome = Exited | Serving "row list"

text \<open>The module from its first line to the creation of the application.\<close>

definition startup :: "csv_file \<Rightarrow> printed list \<times> outcome" where
  "startup f =
     (case load f of
        (out, None) \<Rightarrow> (out, Exited)
      | (out, Some data) \<Rightarrow>
          (case preprocess data of
             Inl e \<Rightarrow> (out @ [Print_Exn ''Error during preprocessing:'' (Preprocessing e)], Exited)
           | Inr data' \<Rightarrow> (out, Serving data')))"

section \<open>The callbacks\<close>

text \<open>
  The callbacks read the module-level frame \<open>data\<close> and build new frames from it.  To
  keep what is shared and what is fresh apart, frames live in a store, a list indexed by
  reference; \<open>data\<close> is the frame at \<open>data_ref\<close>.  \<open>data.copy()\<close> and the selection by a
  boolean mask, \<open>frame[mask]\<close>, each make a new frame.
\<close>

type_synonym store = "row list list"

definition data_ref :: nat where
  "data_ref = 0"

definition new_frame :: "store \<Rightarrow> row list \<Rightarrow> nat \<times> store" where
  "new_frame st f = (length st, st @ [f])"

definition frame_copy :: "store \<Rightarrow> nat \<Rightarrow> nat \<times> store" where
  "frame_copy st r = new_frame st (st ! r)"

definition frame_select :: "store \<Rightarrow> nat \<Rightarrow> (row \<Rightarrow> bool) \<Rightarrow> nat \<times> store" where
  "frame_select st r keep = new_frame st (filter keep (st ! r))"

text \<open>The truth value of a dropdown's value: \<open>None\<close> and the empty string are false.\<close>

fun truthy :: "string option \<Rightarrow> bool" where
  "truthy None = False"
| "truthy (Some v) = (v \<noteq> [])"

text \<open>\<open>if selected: filtered = filtered[filtered[column] == selected]\<close>\<close>

definition narrow_by :: "(row \<Rightarrow> string) \<Rightarrow> string option \<Rightarrow> nat \<times> store \<Rightarrow> nat \<times> store" where
  "narrow_by column selected fs =
     (case fs of (filtered, st) \<Rightarrow>
        if truthy selected then frame_select st filtered (\<lambda>r. Some (column r) = selected)
        else (filtered, st))"

text \<open>\<open>Series.unique()\<close>: the values in the order of their first appearance.\<close>

definition series_unique :: "'a list \<Rightarrow> 'a list" where
  "series_unique xs = foldl (\<lambda>seen x. if x \<in> set seen then seen else seen @ [x]) [] xs"

record dropdown_option =
  label :: string
  option_value :: string

definition options_of :: "string list \<Rightarrow> dropdown_option list" where
  "options_of vs = map (\<lambda>v. \<lparr>label = v, option_value = v\<rparr>) vs"

definition update_district_filter ::
  "store \<Rightarrow> string option \<Rightarrow> dropdown_option list \<times> store" where
  "update_district_filter st selected_province =
     (if truthy selected_province then
        (case frame_select st data_ref (\<lambda>r. Some (Province r) = selected_province) of
           (filtered, st') \<Rightarrow> (options_of (series_unique (map District (st' ! filtered))), st'))
      else ([], st))"

definition update_subdistrict_filter ::
  "store \<Rightarrow> string option \<Rightarrow> string option \<Rightarrow> dropdown_option list \<times> store" where
  "update_subdistrict_filter st selected_province selected_district =
     (case narrow_by District selected_district
             (narrow_by Province selected_province (frame_copy st data_ref)) of
        (filtered, st') \<Rightarrow> (options_of (series_unique (map Sub_district (st' ! filtered))), st'))"

definition update_happyblock_filter ::
  "store \<Rightarrow> string option \<Rightarrow> string option \<Rightarrow> string option
     \<Rightarrow> dropdown_option list \<times> store" where
  "update_happyblock_filter st selected_province selected_district selected_subdistrict =
     (case narrow_by Sub_district selected_subdistrict
             (narrow_by District selected_district
                (narrow_by Province selected_province (frame_copy st data_ref))) of
        (filtered, st') \<Rightarrow> (options_of (series_unique (map Happy_Block (st' ! filtered))), st'))"

record constraints =
  selected_province :: "string option"
  selected_district :: "string option"
  selected_subdistrict :: "string option"
  selected_happyblock :: "string option"
  net_add_range :: "pyfloat \<times> pyfloat"
  potential_range :: "pyfloat \<times> pyfloat"
  utilization_range :: "pyfloat \<times> pyfloat"
  market_share_range :: "pyfloat \<times> pyfloat"

text \<open>The mask of the eight comparisons.\<close>

definition range_mask :: "constraints \<Rightarrow> row \<Rightarrow> bool" where
  "range_mask c r =
     (fge (Net_Add r) (fst (net_add_range c)) \<and>
      fle (Net_Add r) (snd (net_add_range c)) \<and>
      fge (Potential_Score r) (fst (potential_range c)) \<and>
      fle (Potential_Score r) (snd (potential_range c)) \<and>
      fge (Port_Utilization r) (fst (utilization_range c)) \<and>
      fle (Port_Utilization r) (snd (utilization_range c)) \<and>
      fge (Market_Share_True r) (fst (market_share_range c)) \<and>
      fle (Market_Share_True r) (snd (market_share_range c)))"

text \<open>
  \<open>update_map\<close> up to the call of the plotting library: the result is the frame that
  is handed to \<open>px.scatter_mapbox\<close>.
\<close>

definition update_map :: "store \<Rightarrow> constraints \<Rightarrow> row list \<times> store" where
  "update_map st c =
     (case narrow_by Happy_Block (selected_happyblock c)
             (narrow_by Sub_district (selected_subdistrict c)
                (narrow_by District (selected_district c)
                   (narrow_by Province (selected_province c) (frame_copy st data_ref)))) of
        (filtered_data, st') \<Rightarrow>
          (case frame_select st' filtered_data (range_mask c) of
             (filtered_data', st'') \<Rightarrow> (st'' ! filtered_data', st'')))"

text \<open>The values the sliders start with.\<close>

definition default_constraints :: "row list \<Rightarrow> constraints" where
  "default_constraints data =
     \<lparr>selected_province = None, selected_district = None, selected_subdistrict = None,
      selected_happyblock = None,
      net_add_range = (series_min (map Net_Add data), series_max (map Net_Add data)),
      potential_range = (Fin 0, Fin 100),
      utilization_range = (Fin 0, Fin 100),
      market_share_range = (Fin 0, Fin 100)\<rparr>"

subsection \<open>Sequences of callbacks\<close>

datatype query =
    District_Query "string option"
  | Subdistrict_Query "string option" "string option"
  | Happyblock_Query "string option" "string option" "string option"
  | Map_Query constraints

datatype answer = Options "dropdown_option list" | Map_Rows "row list"

fun run_query :: "store \<Rightarrow> query \<Rightarrow> answer \<times> store" where
  "run_query st (District_Query p) =
     (case update_district_filter st p of (os, st') \<Rightarrow> (Options os, st'))"
| "run_query st (Subdistrict_Query p d) =
     (case update_subdistrict_filter st p d of (os, st') \<Rightarrow> (Options os, st'))"
| "run_query st (Happyblock_Query p d s) =
     (case update_happyblock_filter st p d s of (os, st') \<Rightarrow> (Options os, st'))"
| "run_query st (Map_Query c) =
     (case update_map st c of (rows, st') \<Rightarrow> (Map_Rows rows, st'))"

fun run_queries :: "store \<Rightarrow> query list \<Rightarrow> answer list \<times> store" where
  "run_queries st [] = ([], st)"
| "run_queries st (q # qs) =
     (case run_query st q of
        (a, st') \<Rightarrow> (case run_queries st' qs of (as, st'') \<Rightarrow> (a # as, st'')))"

subsection \<open>The filters as the specification words them\<close>

text \<open>An equality constraint: an unset selection matches every value.\<close>

definition sel_ok :: "string option \<Rightarrow> string \<Rightarrow> bool" where
  "sel_ok selected v = (if truthy selected then Some v = selected else True)"

text \<open>A range constraint, inclusive on both ends.\<close>

definition in_range :: "pyfloat \<Rightarrow> pyfloat \<times> pyfloat \<Rightarrow> bool" where
  "in_range v rng = (fge v (fst rng) \<and> fle v (snd rng))"

definition row_matches :: "constraints \<Rightarrow> row \<Rightarrow> bool" where
  "row_matches c r =
     (sel_ok (selected_province c) (Province r) \<and>
      sel_ok (selected_district c) (District r) \<and>
      sel_ok (selected_subdistrict c) (Sub_district r) \<and>
      sel_ok (selected_happyblock c) (Happy_Block r) \<and>
      in_range (Net_Add r) (net_add_range c) \<and>
      in_range (Potential_Score r) (potential_range c) \<and>
      in_range (Port_Utilization r) (utilization_range c) \<and>
      in_range (Market_Share_True r) (market_share_range c))"

text \<open>The distinct values of a column in first-seen order: a value is kept at the
  positions where it has not occurred before.\<close>

definition first_seen :: "'a list \<Rightarrow> 'a list" where
  "first_seen xs = map (\<lambda>k. xs ! k) (filter (\<lambda>k. xs ! k \<notin> set (take k xs)) [0..<length xs])"

text \<open>A selection is stale when it is set and its value does not occur in the column
  among the given rows.\<close>

definition stale :: "(row \<Rightarrow> string) \<Rightarrow> string option \<Rightarrow> row list \<Rightarrow> bool" where
  "stale column selected rows = (truthy selected \<and> selected \<notin> set (map (\<lambda>r. Some (column r)) rows))"

section \<open>Sample frames\<close>

definition demo_data :: "raw_row list" where
  "demo_data =
     [\<lparr>Province = ''A'', District = ''D1'', Sub_district = ''S1'', Happy_Block = ''B1'',
       Household = Fin 200, Install = Fin 10, Churn = Fin 2, Port_Use = Fin 8,
       Port_Utilization = Fin 50, Market_Share_True = Fin 40, True_Speed = ''1000 Mbps'',
       Net_Add = Fin 8, Other_Columns = []\<rparr>,
      \<lparr>Province = ''A'', District = ''D2'', Sub_district = ''S2'', Happy_Block = ''B2'',
       Household = Fin 100, Install = Fin 5, Churn = Fin 9, Port_Use = Fin 3,
       Port_Utilization = Fin 75, Market_Share_True = Fin 20, True_Speed = ''500 Mbps'',
       Net_Add = Fin (- 4), Other_Columns = []\<rparr>]"

definition demo_scored :: "row list" where
  "demo_scored =
     [\<lparr>Province = ''A'', District = ''D1'', Sub_district = ''S1'', Happy_Block = ''B1'',
       Household = Fin 200, Install = Fin 10, Churn = Fin 2, Port_Use = Fin 8,
       Port_Utilization = Fin 50, Market_Share_True = Fin 40, True_Speed = ''1000 Mbps'',
       Net_Add = Fin 8, Other_Columns = [], col_H = Fin 1, col_I = Fin 1,
       col_1_C = Fin (3 / 4), col_M = Fin 1, col_S = Fin 1, Potential_Score = Fin 100\<rparr>,
      \<lparr>Province = ''A'', District = ''D2'', Sub_district = ''S2'', Happy_Block = ''B2'',
       Household = Fin 100, Install = Fin 5, Churn = Fin 9, Port_Use = Fin 3,
       Port_Utilization = Fin 75, Market_Share_True = Fin 20, True_Speed = ''500 Mbps'',
       Net_Add = Fin (- 4), Other_Columns = [], col_H = Fin (1 / 2), col_I = Fin (1 / 2),
       col_1_C = Fin 0, col_M = Fin (1 / 2), col_S = Fin (1 / 2),
       Potential_Score = Fin (800 / 19)\<rparr>]"

definition demo_constraints :: constraints where
  "demo_constraints =
     \<lparr>selected_province = Some ''A'', selected_district = None,
      selected_subdistrict = Some [], selected_happyblock = None,
      net_add_range = (Fin 0, Fin 10),
      potential_range = (Fin 0, Fin 100),
      utilization_range = (Fin 0, Fin 100),
      market_share_range = (Fin 0, Fin 100)\<rparr>"

definition demo_queries :: "query list" where
  "demo_queries =
     [District_Query (Some ''A''), Map_Query demo_constraints,
      Subdistrict_Query (Some ''A'') (Some ''D2''), Happyblock_Query None None None,
      Map_Query demo_constraints]"

text \<open>A stale selection: District \<open>X\<close> does not occur under Province \<open>A\<close>.\<close>

definition stale_constraints :: constraints where
  "stale_constraints =
     \<lparr>selected_province = Some ''A'', selected_district = Some ''X'',
      selected_subdistrict = None, selected_happyblock = None,
      net_add_range = (Fin (- 4), Fin 8),
      potential_range = (Fin 0, Fin 100),
      utilization_range = (Fin 0, Fin 100),
      market_share_range = (Fin 0, Fin 100)\<rparr>"

text \<open>A frame whose second row has no Net Add.\<close>

definition nan_row :: row where
  "nan_row =
     \<lparr>Province = ''A'', District = ''D2'', Sub_district = ''S2'', Happy_Block = ''B2'',
      Household = Fin 100, Install = Fin 5, Churn = Fin 9, Port_Use = Fin 3,
      Port_Utilization = Fin 75, Market_Share_True = Fin 20, True_Speed = ''500 Mbps'',
      Net_Add = NaN, Other_Columns = [], col_H = Fin (1 / 2), col_I = Fin (1 / 2),
      col_1_C = Fin 0, col_M = Fin (1 / 2), col_S = Fin (1 / 2),
      Potential_Score = Fin (800 / 19)\<rparr>"

definition nan_frame :: "row list" where
  "nan_frame = [demo_scored ! 0, nan_row]"

text \<open>A frame whose second row has neither churn nor ports in use.\<close>

definition zero_port_data :: "raw_row list" where
  "zero_port_data =
     [\<lparr>Province = ''A'', District = ''D1'', Sub_district = ''S1'', Happy_Block = ''B1'',
       Household = Fin 200, Install = Fin 10, Churn = Fin 2, Port_Use = Fin 8,
       Port_Utilization = Fin 50, Market_Share_True = Fin 40, True_Speed = ''1000 Mbps'',
       Net_Add = Fin 8, Other_Columns = []\<rparr>,
      \<lparr>Province = ''A'', District = ''D2'', Sub_district = ''S2'', Happy_Block = ''B2'',
       Household = Fin 100, Install = Fin 5, Churn = Fin 0, Port_Use = Fin 0,
       Port_Utilization = Fin 0, Market_Share_True = Fin 20, True_Speed = ''500 Mbps'',
       Net_Add = Fin 0, Other_Columns = []\<rparr>]"

definition zero_port_scored :: "row list" where
  "zero_port_scored =
     [\<lparr>Province = ''A'', District = ''D1'', Sub_district = ''S1'', Happy_Block = ''B1'',
       Household = Fin 200, Install = Fin 10, Churn = Fin 2, Port_Use = Fin 8,
       Port_Utilization = Fin 50, Market_Share_True = Fin 40, True_Speed = ''1000 Mbps'',
       Net_Add = Fin 8, Other_Columns = [], col_H = Fin 1, col_I = Fin 1,
       col_1_C = Fin (3 / 4), col_M = Fin 1, col_S = Fin 1, Potential_Score = Fin 100\<rparr>,
      \<lparr>Province = ''A'', District = ''D2'', Sub_district = ''S2'', Happy_Block = ''B2'',
       Household = Fin 100, Install = Fin 5, Churn = Fin 0, Port_Use = Fin 0,
       Port_Utilization = Fin 0, Market_Share_True = Fin 20, True_Speed = ''500 Mbps'',
       Net_Add = Fin 0, Other_Columns = [], col_H = Fin (1 / 2), col_I = Fin (1 / 2),
       col_1_C = NaN, col_M = Fin (1 / 2), col_S = Fin (1 / 2), Potential_Score = NaN\<rparr>]"

subsection \<open>The bounds of the score as the specification words them\<close>

text \<open>The loaded values of a row that enter the score are finite and not negative.\<close>

definition values_nonneg :: "raw_row \<Rightarrow> bool" where
  "values_nonneg r =
     (nonneg (Household r) \<and> nonneg (Install r) \<and> nonneg (Churn r) \<and> nonneg (Port_Use r)
      \<and> nonneg (Market_Share_True r))"

definition speed_nonneg :: "row \<Rightarrow> bool" where
  "speed_nonneg r = nonneg (col_S r)"

definition raw_nonzero :: "row \<Rightarrow> bool" where
  "raw_nonzero r = (raw_of_row r \<noteq> Fin 0)"

definition score_in_bounds :: "row \<Rightarrow> bool" where
  "score_in_bounds r = in_0_100 (Potential_Score r)"

definition score_is_100 :: "row \<Rightarrow> bool" where
  "score_is_100 r = (Potential_Score r = Fin 100)"

text \<open>Every score lies in [0, 100] and one is exactly 100.\<close>

definition score_invariant :: "row list \<Rightarrow> bool" where
  "score_invariant out = (list_all score_in_bounds out \<and> list_ex score_is_100 out)"

text \<open>The ratio Churn / Port Use of a row is not \<open>0 / 0\<close>.\<close>

definition ratio_defined :: "raw_row \<Rightarrow> bool" where
  "ratio_defined r = (positive (Port_Use r) \<or> positive (Churn r))"

definition has_positive :: "(raw_row \<Rightarrow> pyfloat) \<Rightarrow> raw_row list \<Rightarrow> bool" where
  "has_positive column data = list_ex (\<lambda>r. positive (column r)) data"

fun in_unit :: "pyfloat \<Rightarrow> bool" where
  "in_unit (Fin a) = (0 \<le> a \<and> a \<le> 1)"
| "in_unit _ = False"

section \<open>Properties\<close>

subsection \<open>The score computation\<close>

lemma series_apply_length: "series_apply f xs = Inr ys \<Longrightarrow> length ys = length xs"
  by (induction xs arbitrary: ys) (auto split: sum.splits)

lemma series_apply_nth:
  "series_apply f xs = Inr ys \<Longrightarrow> k < length xs \<Longrightarrow> f (xs ! k) = Inr (ys ! k)"
proof (induction xs arbitrary: ys k)
  case Nil
  then show ?case by simp
next
  case (Cons x xs)
  then show ?case by (cases k) (auto split: sum.splits)
qed

lemma series_apply_total:
  "(\<exists>ys. series_apply f xs = Inr ys) = (\<forall>x \<in> set xs. \<exists>y. f x = Inr y)"
  by (induction xs) (auto split: sum.splits)

lemma length_calc [simp]:
  "length (calc_H data) = length data" "length (calc_I data) = length data"
  "length (calc_1_C data) = length data" "length (calc_M data) = length data"
  by (simp_all add: calc_H_def calc_I_def calc_1_C_def calc_M_def div_scalar_def
      rsub_scalar_def clip_upper_def series_div_def)

lemma length_score_raw:
  "length h = n \<Longrightarrow> length i = n \<Longrightarrow> length c = n \<Longrightarrow> length m = n \<Longrightarrow> length s = n
   \<Longrightarrow> length (score_raw h i c m s) = n"
  by (simp add: score_raw_def series_add_def mul_scalar_def)

lemma length_score_final [simp]: "length (score_final p) = length p"
  by (simp add: score_final_def times_scalar_def div_scalar_def)

lemma score_raw_nth:
  "length h = n \<Longrightarrow> length i = n \<Longrightarrow> length c = n \<Longrightarrow> length m = n \<Longrightarrow> length s = n
   \<Longrightarrow> k < n
   \<Longrightarrow> score_raw h i c m s ! k = weighted_sum (h ! k) (i ! k) (c ! k) (m ! k) (s ! k)"
  by (simp add: score_raw_def series_add_def mul_scalar_def weighted_sum_def
      W1_def W2_def W3_def W4_def W5_def)

lemma score_final_nth:
  "k < length p \<Longrightarrow> score_final p ! k = fmul (fdiv (p ! k) (series_max p)) (Fin 100)"
  by (simp add: score_final_def times_scalar_def div_scalar_def)


lemma preprocess_Inr:
  assumes "preprocess data = Inr out"
  obtains s where "calc_S data = Inr s" and "length s = length data"
    and "out = map2 assign data
           (zip (calc_H data) (zip (calc_I data) (zip (calc_1_C data) (zip (calc_M data)
              (zip s (score_final
                 (score_raw (calc_H data) (calc_I data) (calc_1_C data) (calc_M data) s)))))))"
proof (cases "calc_S data")
  case (Inl e)
  with assms show ?thesis by (simp add: preprocess_def)
next
  case (Inr s)
  have "length s = length data"
    using Inr series_apply_length[of speed_to_S "map True_Speed data" s]
    by (simp add: calc_S_def)
  moreover from assms Inr have "out = map2 assign data
           (zip (calc_H data) (zip (calc_I data) (zip (calc_1_C data) (zip (calc_M data)
              (zip s (score_final
                 (score_raw (calc_H data) (calc_I data) (calc_1_C data) (calc_M data) s)))))))"
    by (simp add: preprocess_def Let_def)
  ultimately show ?thesis using that Inr by blast
qed

lemma preprocess_length: "preprocess data = Inr out \<Longrightarrow> length out = length data"
  by (erule preprocess_Inr) (simp add: length_score_raw)

lemma preprocess_nth:
  assumes "preprocess data = Inr out" and "k < length data"
  obtains s where "calc_S data = Inr s" and "length s = length data"
    and "out ! k = assign (data ! k)
           (calc_H data ! k, calc_I data ! k, calc_1_C data ! k, calc_M data ! k, s ! k,
            score_final
              (score_raw (calc_H data) (calc_I data) (calc_1_C data) (calc_M data) s) ! k)"
proof -
  from assms(1) obtain s where s: "calc_S data = Inr s" "length s = length data"
    and out: "out = map2 assign data
           (zip (calc_H data) (zip (calc_I data) (zip (calc_1_C data) (zip (calc_M data)
              (zip s (score_final
                 (score_raw (calc_H data) (calc_I data) (calc_1_C data) (calc_M data) s)))))))"
    by (rule preprocess_Inr)
  have "length (score_raw (calc_H data) (calc_I data) (calc_1_C data) (calc_M data) s)
          = length data"
    using s(2) by (simp add: length_score_raw)
  with out assms(2) s(2) have "out ! k = assign (data ! k)
           (calc_H data ! k, calc_I data ! k, calc_1_C data ! k, calc_M data ! k, s ! k,
            score_final
              (score_raw (calc_H data) (calc_I data) (calc_1_C data) (calc_M data) s) ! k)"
    by simp
  with s that show ?thesis by blast
qed

lemma assign_sel [simp]:
  "col_H (assign r (h, i, c, m, s, p)) = h"
  "col_I (assign r (h, i, c, m, s, p)) = i"
  "col_1_C (assign r (h, i, c, m, s, p)) = c"
  "col_M (assign r (h, i, c, m, s, p)) = m"
  "col_S (assign r (h, i, c, m, s, p)) = s"
  "Potential_Score (assign r (h, i, c, m, s, p)) = p"
  by (simp_all add: assign_def)

lemma assign_raw [simp]:
  "Province (assign r v) = Province r"
  "District (assign r v) = District r"
  "Sub_district (assign r v) = Sub_district r"
  "Happy_Block (assign r v) = Happy_Block r"
  "Household (assign r v) = Household r"
  "Install (assign r v) = Install r"
  "Churn (assign r v) = Churn r"
  "Port_Use (assign r v) = Port_Use r"
  "Port_Utilization (assign r v) = Port_Utilization r"
  "Market_Share_True (assign r v) = Market_Share_True r"
  "True_Speed (assign r v) = True_Speed r"
  "Net_Add (assign r v) = Net_Add r"
  "Other_Columns (assign r v) = Other_Columns r"
  by (simp_all add: assign_def split: prod.splits)

lemma preprocess_raw_scores:
  assumes "preprocess data = Inr out" and "calc_S data = Inr s"
  shows "map raw_of_row out
           = score_raw (calc_H data) (calc_I data) (calc_1_C data) (calc_M data) s"
proof (rule nth_equalityI)
  have ls: "length s = length data"
    using assms(2) series_apply_length[of speed_to_S "map True_Speed data" s]
    by (simp add: calc_S_def)
  show "length (map raw_of_row out)
          = length (score_raw (calc_H data) (calc_I data) (calc_1_C data) (calc_M data) s)"
    using assms(1) ls by (simp add: preprocess_length length_score_raw)
  fix k assume "k < length (map raw_of_row out)"
  then have k: "k < length data" using assms(1) by (simp add: preprocess_length)
  from assms(1) k obtain s' where s': "calc_S data = Inr s'"
    and nth: "out ! k = assign (data ! k)
           (calc_H data ! k, calc_I data ! k, calc_1_C data ! k, calc_M data ! k, s' ! k,
            score_final
              (score_raw (calc_H data) (calc_I data) (calc_1_C data) (calc_M data) s') ! k)"
    by (rule preprocess_nth)
  from s' assms(2) have [simp]: "s' = s" by simp
  show "map raw_of_row out ! k
          = score_raw (calc_H data) (calc_I data) (calc_1_C data) (calc_M data) s ! k"
    using k ls nth assms(1)
    by (simp add: preprocess_length raw_of_row_def score_raw_nth[where n = "length data"])
qed

lemma preprocess_cells:
  assumes "preprocess data = Inr out" and "k < length data"
  shows "length out = length data
       \<and> col_H (out ! k) = fdiv (Household (data ! k)) (series_max (map Household data))
       \<and> col_I (out ! k) = fdiv (Install (data ! k)) (series_max (map Install data))
       \<and> col_M (out ! k)
           = fdiv (Market_Share_True (data ! k)) (series_max (map Market_Share_True data))
       \<and> Potential_Score (out ! k)
           = fmul (fdiv (raw_of_row (out ! k)) (series_max (map raw_of_row out))) (Fin 100)"
proof -
  from assms obtain s where s: "calc_S data = Inr s" "length s = length data"
    and nth: "out ! k = assign (data ! k)
           (calc_H data ! k, calc_I data ! k, calc_1_C data ! k, calc_M data ! k, s ! k,
            score_final
              (score_raw (calc_H data) (calc_I data) (calc_1_C data) (calc_M data) s) ! k)"
    by (rule preprocess_nth)
  let ?p = "score_raw (calc_H data) (calc_I data) (calc_1_C data) (calc_M data) s"
  have len: "length out = length data" using assms(1) by (rule preprocess_length)
  have raws: "map raw_of_row out = ?p" using assms(1) s(1) by (rule preprocess_raw_scores)
  have lp: "length ?p = length data" using s(2) by (simp add: length_score_raw)
  have "raw_of_row (out ! k) = ?p ! k"
    using raws assms(2) len by (metis nth_map)
  then have "Potential_Score (out ! k)
           = fmul (fdiv (raw_of_row (out ! k)) (series_max (map raw_of_row out))) (Fin 100)"
    using nth lp assms(2) raws by (simp add: score_final_nth)
  moreover have "col_H (out ! k) = fdiv (Household (data ! k)) (series_max (map Household data))"
    using nth assms(2) by (simp add: calc_H_def div_scalar_def)
  moreover have "col_I (out ! k) = fdiv (Install (data ! k)) (series_max (map Install data))"
    using nth assms(2) by (simp add: calc_I_def div_scalar_def)
  moreover have "col_M (out ! k)
           = fdiv (Market_Share_True (data ! k)) (series_max (map Market_Share_True data))"
    using nth assms(2) by (simp add: calc_M_def div_scalar_def)
  ultimately show ?thesis using len by simp
qed

text \<open>
  Claim C1.  Whenever preprocessing succeeds, the columns H, I and M of every row are the
  row's Household, Install and Market Share True divided by the maximum of that column
  over the whole loaded frame, and the row's Potential Score is its weighted sum
  \<open>0.40 H + 0.25 I + 0.20 (1-C) + 0.05 M + 0.10 S\<close> divided by the maximum of that sum over
  all rows, times 100.
\<close>

theorem potential_score_formula:
  assumes "preprocess data = Inr out" and "k < length data"
  shows "length out = length data
       \<and> col_H (out ! k) = fdiv (Household (data ! k)) (series_max (map Household data))
       \<and> col_I (out ! k) = fdiv (Install (data ! k)) (series_max (map Install data))
       \<and> col_M (out ! k)
           = fdiv (Market_Share_True (data ! k)) (series_max (map Market_Share_True data))
       \<and> Potential_Score (out ! k)
           = fmul (fdiv (raw_of_row (out ! k)) (series_max (map raw_of_row out))) (Fin 100)"
  using assms by (rule preprocess_cells)

lemma speed_1000: "speed_to_S ''1000 Mbps'' = Inr (Fin 1)"
  by code_simp

lemma speed_500: "speed_to_S ''500 Mbps'' = Inr (Fin (1 / 2))"
  by code_simp

lemma preprocess_demo: "preprocess demo_data = Inr demo_scored"
  by (simp add: preprocess_def demo_data_def demo_scored_def calc_H_def calc_I_def
      calc_1_C_def calc_M_def calc_S_def speed_1000 speed_500 series_max_def fmax2_def
      div_scalar_def mul_scalar_def times_scalar_def rsub_scalar_def series_div_def
      series_add_def clip_upper_def score_raw_def score_final_def fgt_def fsub_def
      assign_def W1_def W2_def W3_def W4_def W5_def)

theorem potential_score_formula_witness:
  "preprocess demo_data = Inr demo_scored \<and> 1 < length demo_data
   \<and> Potential_Score (demo_scored ! 1)
       = fmul (fdiv (raw_of_row (demo_scored ! 1)) (series_max (map raw_of_row demo_scored)))
           (Fin 100)
   \<and> Potential_Score (demo_scored ! 1) = Fin (800 / 19)"
proof -
  have h1: "preprocess demo_data = Inr demo_scored" by (rule preprocess_demo)
  have h2: "1 < length demo_data" by (simp add: demo_data_def)
  have "Potential_Score (demo_scored ! 1) = Fin (800 / 19)" by (simp add: demo_scored_def)
  with potential_score_formula [OF h1 h2] h1 h2 show ?thesis by simp
qed

subsection \<open>Frames in the store\<close>

lemma new_frame_spec:
  "new_frame st f = (r, st') \<Longrightarrow> r < length st' \<and> prefix st st' \<and> st' ! r = f"
  by (auto simp: new_frame_def)

lemma frame_copy_spec:
  "frame_copy st r = (r', st') \<Longrightarrow> r' < length st' \<and> prefix st st' \<and> st' ! r' = st ! r"
  unfolding frame_copy_def by (rule new_frame_spec)

lemma frame_select_spec:
  "frame_select st r keep = (r', st')
   \<Longrightarrow> r' < length st' \<and> prefix st st' \<and> st' ! r' = filter keep (st ! r)"
  unfolding frame_select_def by (rule new_frame_spec)

lemma prefix_nth: "prefix st st' \<Longrightarrow> r < length st \<Longrightarrow> st' ! r = st ! r"
  by (auto simp: prefix_def nth_append)

lemma narrow_by_spec:
  assumes "narrow_by column selected (r, st) = (r', st')" and "r < length st"
  shows "r' < length st' \<and> prefix st st'
       \<and> st' ! r' = filter (\<lambda>x. sel_ok selected (column x)) (st ! r)"
proof (cases "truthy selected")
  case True
  with assms(1) have "frame_select st r (\<lambda>x. Some (column x) = selected) = (r', st')"
    by (simp add: narrow_by_def)
  from frame_select_spec [OF this] True show ?thesis by (simp add: sel_ok_def)
next
  case False
  with assms show ?thesis by (simp add: narrow_by_def sel_ok_def)
qed

text \<open>A frame copied from \<open>data\<close> and narrowed by a list of selections.\<close>

lemma narrowed_1:
  assumes "narrow_by c1 s1 (frame_copy st data_ref) = (r', st')" and "data_ref < length st"
  shows "r' < length st' \<and> prefix st st'
       \<and> st' ! r' = filter (\<lambda>x. sel_ok s1 (c1 x)) (st ! data_ref)"
proof -
  obtain r0 st0 where c: "frame_copy st data_ref = (r0, st0)" by (cases "frame_copy st data_ref")
  from frame_copy_spec [OF c]
  have 0: "r0 < length st0" "prefix st st0" "st0 ! r0 = st ! data_ref" by simp_all
  from assms(1) c have "narrow_by c1 s1 (r0, st0) = (r', st')" by simp
  from narrow_by_spec [OF this 0(1)] 0 show ?thesis
    by (auto intro: prefix_order.trans)
qed

lemma narrowed_2:
  assumes "narrow_by c2 s2 (narrow_by c1 s1 (frame_copy st data_ref)) = (r', st')"
    and "data_ref < length st"
  shows "r' < length st' \<and> prefix st st'
       \<and> st' ! r' = filter (\<lambda>x. sel_ok s1 (c1 x) \<and> sel_ok s2 (c2 x)) (st ! data_ref)"
proof -
  obtain r1 st1 where c: "narrow_by c1 s1 (frame_copy st data_ref) = (r1, st1)"
    by (cases "narrow_by c1 s1 (frame_copy st data_ref)")
  from narrowed_1 [OF c assms(2)]
  have 1: "r1 < length st1" "prefix st st1"
    "st1 ! r1 = filter (\<lambda>x. sel_ok s1 (c1 x)) (st ! data_ref)" by simp_all
  from assms(1) c have "narrow_by c2 s2 (r1, st1) = (r', st')" by simp
  from narrow_by_spec [OF this 1(1)] 1 show ?thesis
    by (auto intro: prefix_order.trans)
qed

lemma narrowed_3:
  assumes "narrow_by c3 s3 (narrow_by c2 s2 (narrow_by c1 s1 (frame_copy st data_ref)))
             = (r', st')"
    and "data_ref < length st"
  shows "r' < length st' \<and> prefix st st'
       \<and> st' ! r' = filter (\<lambda>x. sel_ok s1 (c1 x) \<and> sel_ok s2 (c2 x) \<and> sel_ok s3 (c3 x))
                      (st ! data_ref)"
proof -
  obtain r2 st2 where c: "narrow_by c2 s2 (narrow_by c1 s1 (frame_copy st data_ref)) = (r2, st2)"
    by (cases "narrow_by c2 s2 (narrow_by c1 s1 (frame_copy st data_ref))")
  from narrowed_2 [OF c assms(2)]
  have 2: "r2 < length st2" "prefix st st2"
    "st2 ! r2 = filter (\<lambda>x. sel_ok s1 (c1 x) \<and> sel_ok s2 (c2 x)) (st ! data_ref)" by simp_all
  from assms(1) c have "narrow_by c3 s3 (r2, st2) = (r', st')" by simp
  from narrow_by_spec [OF this 2(1)] 2 show ?thesis
    by (auto intro: prefix_order.trans simp: conj_assoc)
qed

lemma narrowed_4:
  assumes "narrow_by c4 s4
             (narrow_by c3 s3 (narrow_by c2 s2 (narrow_by c1 s1 (frame_copy st data_ref))))
             = (r', st')"
    and "data_ref < length st"
  shows "r' < length st' \<and> prefix st st'
       \<and> st' ! r' = filter (\<lambda>x. sel_ok s1 (c1 x) \<and> sel_ok s2 (c2 x) \<and> sel_ok s3 (c3 x)
                                 \<and> sel_ok s4 (c4 x)) (st ! data_ref)"
proof -
  obtain r3 st3 where
    c: "narrow_by c3 s3 (narrow_by c2 s2 (narrow_by c1 s1 (frame_copy st data_ref))) = (r3, st3)"
    by (cases "narrow_by c3 s3 (narrow_by c2 s2 (narrow_by c1 s1 (frame_copy st data_ref)))")
  from narrowed_3 [OF c assms(2)]
  have 3: "r3 < length st3" "prefix st st3"
    "st3 ! r3 = filter (\<lambda>x. sel_ok s1 (c1 x) \<and> sel_ok s2 (c2 x) \<and> sel_ok s3 (c3 x))
                  (st ! data_ref)" by simp_all
  from assms(1) c have "narrow_by c4 s4 (r3, st3) = (r', st')" by simp
  from narrow_by_spec [OF this 3(1)] 3 show ?thesis
    by (auto intro: prefix_order.trans simp: conj_assoc)
qed

subsection \<open>The main filter\<close>

lemma range_mask_in_range:
  "range_mask c r =
     (in_range (Net_Add r) (net_add_range c) \<and> in_range (Potential_Score r) (potential_range c)
      \<and> in_range (Port_Utilization r) (utilization_range c)
      \<and> in_range (Market_Share_True r) (market_share_range c))"
  by (auto simp: range_mask_def in_range_def)

lemma update_map_spec:
  assumes "data_ref < length st"
  shows "fst (update_map st c) = filter (row_matches c) (st ! data_ref)
       \<and> prefix st (snd (update_map st c))"
proof -
  let ?n = "narrow_by Happy_Block (selected_happyblock c)
             (narrow_by Sub_district (selected_subdistrict c)
                (narrow_by District (selected_district c)
                   (narrow_by Province (selected_province c) (frame_copy st data_ref))))"
  obtain r4 st4 where n: "?n = (r4, st4)" by (cases ?n)
  from narrowed_4 [OF n assms]
  have 4: "r4 < length st4" "prefix st st4"
    "st4 ! r4 = filter (\<lambda>x. sel_ok (selected_province c) (Province x)
                         \<and> sel_ok (selected_district c) (District x)
                         \<and> sel_ok (selected_subdistrict c) (Sub_district x)
                         \<and> sel_ok (selected_happyblock c) (Happy_Block x)) (st ! data_ref)"
    by simp_all
  obtain r5 st5 where s: "frame_select st4 r4 (range_mask c) = (r5, st5)"
    by (cases "frame_select st4 r4 (range_mask c)")
  from frame_select_spec [OF s]
  have 5: "prefix st4 st5" "st5 ! r5 = filter (range_mask c) (st4 ! r4)" by simp_all
  have "update_map st c = (st5 ! r5, st5)"
    using n s by (simp add: update_map_def)
  moreover have "st5 ! r5 = filter (row_matches c) (st ! data_ref)"
    unfolding 5(2) 4(3) filter_filter
    by (rule filter_cong) (auto simp: row_matches_def range_mask_in_range)
  moreover have "prefix st st5" using 4(2) 5(1) by (rule prefix_order.trans)
  ultimately show ?thesis by simp
qed

text \<open>
  Claim C3.  The main filter returns, in the order of the frame, exactly the rows that
  satisfy every equality constraint that is set (an unset one, \<open>None\<close> or the empty
  string, excludes no row) and all four range constraints, each inclusive on both ends:
  \<open>in_range v (lo, hi)\<close> is \<open>v >= lo and v <= hi\<close>.
\<close>

theorem main_filter_exact:
  assumes "data_ref < length st"
  shows "fst (update_map st c) = filter (row_matches c) (st ! data_ref)
       \<and> (\<forall>v lo hi. in_range v (lo, hi) = (fge v lo \<and> fle v hi))
       \<and> (\<forall>v. sel_ok None v \<and> sel_ok (Some []) v)"
  using update_map_spec [OF assms] by (simp add: in_range_def sel_ok_def)

theorem main_filter_exact_witness:
  "data_ref < length [demo_scored]
   \<and> fst (update_map [demo_scored] demo_constraints) = [demo_scored ! 0]"
proof -
  have h: "data_ref < length [demo_scored]" by (simp add: data_ref_def)
  have "filter (row_matches demo_constraints) ([demo_scored] ! data_ref) = [demo_scored ! 0]"
    by (simp add: data_ref_def demo_scored_def demo_constraints_def row_matches_def
        sel_ok_def in_range_def fge_def)
  with main_filter_exact [OF h, of demo_constraints] h show ?thesis by simp
qed

subsection \<open>Option discovery\<close>

lemma series_unique_snoc:
  "series_unique (xs @ [x])
     = (if x \<in> set (series_unique xs) then series_unique xs else series_unique xs @ [x])"
  by (simp add: series_unique_def)

lemma series_unique_Nil [simp]: "series_unique [] = []"
  by (simp add: series_unique_def)

lemma set_series_unique: "set (series_unique xs) = set xs"
  by (induction xs rule: rev_induct) (auto simp: series_unique_snoc)

lemma distinct_series_unique: "distinct (series_unique xs)"
  by (induction xs rule: rev_induct) (auto simp: series_unique_snoc)

lemma first_seen_Nil [simp]: "first_seen [] = []"
  by (simp add: first_seen_def)

lemma first_seen_snoc:
  "first_seen (xs @ [x]) = first_seen xs @ (if x \<in> set xs then [] else [x])"
proof -
  have a: "filter (\<lambda>k. (xs @ [x]) ! k \<notin> set (take k (xs @ [x]))) [0..<length xs]
             = filter (\<lambda>k. xs ! k \<notin> set (take k xs)) [0..<length xs]"
    by (rule filter_cong) (auto simp: nth_append)
  have b: "map (\<lambda>k. (xs @ [x]) ! k) (filter (\<lambda>k. xs ! k \<notin> set (take k xs)) [0..<length xs])
             = map (\<lambda>k. xs ! k) (filter (\<lambda>k. xs ! k \<notin> set (take k xs)) [0..<length xs])"
    by (rule map_cong) (auto simp: nth_append)
  have c: "[0..<length (xs @ [x])] = [0..<length xs] @ [length xs]"
    by simp
  have d: "map (\<lambda>k. (xs @ [x]) ! k)
             (filter (\<lambda>k. (xs @ [x]) ! k \<notin> set (take k (xs @ [x]))) [length xs])
             = (if x \<in> set xs then [] else [x])"
    by simp
  show ?thesis
    unfolding first_seen_def c filter_append map_append a b d ..
qed

lemma series_unique_first_seen: "series_unique xs = first_seen xs"
proof (induction xs rule: rev_induct)
  case Nil
  show ?case by simp
next
  case (snoc x xs)
  have "set (series_unique xs) = set xs" by (rule set_series_unique)
  then have "series_unique (xs @ [x]) = series_unique xs @ (if x \<in> set xs then [] else [x])"
    by (simp add: series_unique_snoc)
  with snoc show ?case by (simp only: first_seen_snoc)
qed

lemma options_of_values [simp]:
  "map option_value (options_of vs) = vs" "map label (options_of vs) = vs"
  by (simp_all add: options_of_def comp_def)

lemma update_district_filter_spec:
  assumes "data_ref < length st"
  shows "fst (update_district_filter st p)
           = (if truthy p
              then options_of (first_seen (map District
                     (filter (\<lambda>r. sel_ok p (Province r)) (st ! data_ref))))
              else [])"
proof (cases "truthy p")
  case True
  obtain r' st' where s: "frame_select st data_ref (\<lambda>r. Some (Province r) = p) = (r', st')"
    by (cases "frame_select st data_ref (\<lambda>r. Some (Province r) = p)")
  from frame_select_spec [OF s] True s show ?thesis
    by (simp add: update_district_filter_def series_unique_first_seen sel_ok_def)
next
  case False
  then show ?thesis by (simp add: update_district_filter_def)
qed

lemma update_subdistrict_filter_spec:
  assumes "data_ref < length st"
  shows "fst (update_subdistrict_filter st p d)
           = options_of (first_seen (map Sub_district
               (filter (\<lambda>r. sel_ok p (Province r) \<and> sel_ok d (District r)) (st ! data_ref))))"
proof -
  let ?n = "narrow_by District d (narrow_by Province p (frame_copy st data_ref))"
  obtain r' st' where n: "?n = (r', st')" by (cases ?n)
  from narrowed_2 [OF n assms] n show ?thesis
    by (simp add: update_subdistrict_filter_def series_unique_first_seen)
qed

lemma update_happyblock_filter_spec:
  assumes "data_ref < length st"
  shows "fst (update_happyblock_filter st p d s)
           = options_of (first_seen (map Happy_Block
               (filter (\<lambda>r. sel_ok p (Province r) \<and> sel_ok d (District r)
                              \<and> sel_ok s (Sub_district r)) (st ! data_ref))))"
proof -
  let ?n = "narrow_by Sub_district s
              (narrow_by District d (narrow_by Province p (frame_copy st data_ref)))"
  obtain r' st' where n: "?n = (r', st')" by (cases ?n)
  from narrowed_3 [OF n assms] n show ?thesis
    by (simp add: update_happyblock_filter_def series_unique_first_seen)
qed

text \<open>
  Claim C4, as the code has it.  The Sub-district and Happy Block queries apply the
  selections of the levels above their own, an unset one matching every row, and return
  the distinct values of their column in first-seen order within the rows so narrowed,
  each as label and as value.  The District query does the same when a Province is
  selected; with no Province selected it returns the empty list.
\<close>

theorem option_queries_first_seen:
  assumes "data_ref < length st"
  shows "map option_value (fst (update_district_filter st p))
           = (if truthy p
              then first_seen (map District
                     (filter (\<lambda>r. sel_ok p (Province r)) (st ! data_ref)))
              else [])
       \<and> map option_value (fst (update_subdistrict_filter st p d))
           = first_seen (map Sub_district
               (filter (\<lambda>r. sel_ok p (Province r) \<and> sel_ok d (District r)) (st ! data_ref)))
       \<and> map option_value (fst (update_happyblock_filter st p d s))
           = first_seen (map Happy_Block
               (filter (\<lambda>r. sel_ok p (Province r) \<and> sel_ok d (District r)
                              \<and> sel_ok s (Sub_district r)) (st ! data_ref)))
       \<and> map label (fst (update_district_filter st p))
           = map option_value (fst (update_district_filter st p))
       \<and> map label (fst (update_subdistrict_filter st p d))
           = map option_value (fst (update_subdistrict_filter st p d))
       \<and> map label (fst (update_happyblock_filter st p d s))
           = map option_value (fst (update_happyblock_filter st p d s))"
  by (simp add: update_district_filter_spec [OF assms] update_subdistrict_filter_spec [OF assms]
      update_happyblock_filter_spec [OF assms] del: map_eq_conv)

lemma first_seen_demo_districts: "first_seen (map District demo_scored) = [''D1'', ''D2'']"
  by (simp add: series_unique_first_seen [symmetric] series_unique_def demo_scored_def)

theorem option_queries_first_seen_witness:
  "data_ref < length [demo_scored]
   \<and> map option_value (fst (update_district_filter [demo_scored] (Some ''A''))) = [''D1'', ''D2'']
   \<and> map option_value (fst (update_district_filter [demo_scored] None)) = []"
proof -
  have h: "data_ref < length [demo_scored]" by (simp add: data_ref_def)
  have f: "filter (\<lambda>r. sel_ok (Some ''A'') (Province r)) ([demo_scored] ! data_ref) = demo_scored"
    by (simp add: data_ref_def demo_scored_def sel_ok_def)
  from option_queries_first_seen [OF h, of "Some ''A''"] option_queries_first_seen [OF h, of None]
    h f first_seen_demo_districts
  show ?thesis by simp
qed

text \<open>
  The District query with no Province selected does not return the distinct District
  values of the full frame.
\<close>

theorem district_options_unset_counterexample:
  "map option_value (fst (update_district_filter [demo_scored] None))
     \<noteq> first_seen (map District ([demo_scored] ! data_ref))"
  by (simp add: update_district_filter_def data_ref_def first_seen_demo_districts)

subsection \<open>Stale selections\<close>

lemma stale_filter_empty:
  assumes "stale column selected (filter Q rows)"
  shows "filter (\<lambda>x. Q x \<and> sel_ok selected (column x) \<and> R x) rows = []"
proof -
  have "\<not> (Q x \<and> sel_ok selected (column x) \<and> R x)" if "x \<in> set rows" for x
  proof
    assume a: "Q x \<and> sel_ok selected (column x) \<and> R x"
    from assms have t: "truthy selected" by (simp add: stale_def)
    with a have "Some (column x) = selected" by (simp add: sel_ok_def)
    with a that have "selected \<in> set (map (\<lambda>r. Some (column r)) (filter Q rows))"
      by force
    with assms show False by (simp add: stale_def)
  qed
  then show ?thesis by (simp add: filter_empty_conv)
qed

lemma options_of_Nil [simp]: "options_of [] = []"
  by (simp add: options_of_def)

lemma row_matches_fun:
  "row_matches c =
     (\<lambda>r. sel_ok (selected_province c) (Province r) \<and>
          sel_ok (selected_district c) (District r) \<and>
          sel_ok (selected_subdistrict c) (Sub_district r) \<and>
          sel_ok (selected_happyblock c) (Happy_Block r) \<and>
          in_range (Net_Add r) (net_add_range c) \<and>
          in_range (Potential_Score r) (potential_range c) \<and>
          in_range (Port_Utilization r) (utilization_range c) \<and>
          in_range (Market_Share_True r) (market_share_range c))"
  by (rule ext) (simp add: row_matches_def)

lemma stale_at_province:
  assumes "data_ref < length st" and "stale Province (selected_province c) (st ! data_ref)"
  shows "fst (update_map st c) = []
       \<and> fst (update_district_filter st (selected_province c)) = []
       \<and> fst (update_subdistrict_filter st (selected_province c) d) = []
       \<and> fst (update_happyblock_filter st (selected_province c) d s) = []"
proof -
  let ?p = "selected_province c" and ?rows = "st ! data_ref"
  from assms(2) have a: "stale Province ?p (filter (\<lambda>r. True) ?rows)" by simp
  have 1: "filter (\<lambda>r. sel_ok ?p (Province r)) ?rows = []"
    using stale_filter_empty [OF a, of "\<lambda>r. True"] by simp
  have 2: "filter (\<lambda>r. sel_ok ?p (Province r) \<and> sel_ok d (District r)) ?rows = []"
    using stale_filter_empty [OF a, of "\<lambda>r. sel_ok d (District r)"] by simp
  have 3: "filter (\<lambda>r. sel_ok ?p (Province r) \<and> sel_ok d (District r)
                        \<and> sel_ok s (Sub_district r)) ?rows = []"
    using stale_filter_empty [OF a, of "\<lambda>r. sel_ok d (District r) \<and> sel_ok s (Sub_district r)"]
    by simp
  have 4: "filter (row_matches c) ?rows = []"
    using stale_filter_empty [OF a, of "\<lambda>r. sel_ok (selected_district c) (District r) \<and>
        sel_ok (selected_subdistrict c) (Sub_district r) \<and>
        sel_ok (selected_happyblock c) (Happy_Block r) \<and>
        in_range (Net_Add r) (net_add_range c) \<and>
        in_range (Potential_Score r) (potential_range c) \<and>
        in_range (Port_Utilization r) (utilization_range c) \<and>
        in_range (Market_Share_True r) (market_share_range c)"]
    by (simp add: row_matches_fun)
  show ?thesis
    using update_map_spec [OF assms(1), of c]
    by (simp add: update_district_filter_spec [OF assms(1)]
        update_subdistrict_filter_spec [OF assms(1)]
        update_happyblock_filter_spec [OF assms(1)] 1 2 3 4)
qed

lemma stale_at_district:
  assumes "data_ref < length st"
    and "stale District (selected_district c)
           (filter (\<lambda>r. sel_ok (selected_province c) (Province r)) (st ! data_ref))"
  shows "fst (update_map st c) = []
       \<and> fst (update_subdistrict_filter st (selected_province c) (selected_district c)) = []
       \<and> fst (update_happyblock_filter st (selected_province c) (selected_district c) s) = []"
proof -
  let ?p = "selected_province c" and ?d = "selected_district c" and ?rows = "st ! data_ref"
  note a = assms(2)
  have 2: "filter (\<lambda>r. sel_ok ?p (Province r) \<and> sel_ok ?d (District r)) ?rows = []"
    using stale_filter_empty [OF a, of "\<lambda>r. True"] by simp
  have 3: "filter (\<lambda>r. sel_ok ?p (Province r) \<and> sel_ok ?d (District r)
                        \<and> sel_ok s (Sub_district r)) ?rows = []"
    using stale_filter_empty [OF a, of "\<lambda>r. sel_ok s (Sub_district r)"] by simp
  have 4: "filter (row_matches c) ?rows = []"
    using stale_filter_empty [OF a, of "\<lambda>r.
        sel_ok (selected_subdistrict c) (Sub_district r) \<and>
        sel_ok (selected_happyblock c) (Happy_Block r) \<and>
        in_range (Net_Add r) (net_add_range c) \<and>
        in_range (Potential_Score r) (potential_range c) \<and>
        in_range (Port_Utilization r) (utilization_range c) \<and>
        in_range (Market_Share_True r) (market_share_range c)"]
    by (simp add: row_matches_fun)
  show ?thesis
    using update_map_spec [OF assms(1), of c]
    by (simp add: update_subdistrict_filter_spec [OF assms(1)]
        update_happyblock_filter_spec [OF assms(1)] 2 3 4)
qed

lemma stale_at_subdistrict:
  assumes "data_ref < length st"
    and "stale Sub_district (selected_subdistrict c)
           (filter (\<lambda>r. sel_ok (selected_province c) (Province r)
                          \<and> sel_ok (selected_district c) (District r)) (st ! data_ref))"
  shows "fst (update_map st c) = []
       \<and> fst (update_happyblock_filter st (selected_province c) (selected_district c)
                (selected_subdistrict c)) = []"
proof -
  let ?p = "selected_province c" and ?d = "selected_district c"
    and ?s = "selected_subdistrict c" and ?rows = "st ! data_ref"
  note a = assms(2)
  have 3: "filter (\<lambda>r. sel_ok ?p (Province r) \<and> sel_ok ?d (District r)
                        \<and> sel_ok ?s (Sub_district r)) ?rows = []"
    using stale_filter_empty [OF a, of "\<lambda>r. True"] by simp
  have 4: "filter (row_matches c) ?rows = []"
    using stale_filter_empty [OF a, of "\<lambda>r.
        sel_ok (selected_happyblock c) (Happy_Block r) \<and>
        in_range (Net_Add r) (net_add_range c) \<and>
        in_range (Potential_Score r) (potential_range c) \<and>
        in_range (Port_Utilization r) (utilization_range c) \<and>
        in_range (Market_Share_True r) (market_share_range c)"]
    by (simp add: row_matches_fun)
  show ?thesis
    using update_map_spec [OF assms(1), of c]
    by (simp add: update_happyblock_filter_spec [OF assms(1)] 3 4)
qed

lemma stale_at_happyblock:
  assumes "data_ref < length st"
    and "stale Happy_Block (selected_happyblock c)
           (filter (\<lambda>r. sel_ok (selected_province c) (Province r)
                          \<and> sel_ok (selected_district c) (District r)
                          \<and> sel_ok (selected_subdistrict c) (Sub_district r)) (st ! data_ref))"
  shows "fst (update_map st c) = []"
proof -
  have 4: "filter (row_matches c) (st ! data_ref) = []"
    using stale_filter_empty [OF assms(2), of "\<lambda>r.
        in_range (Net_Add r) (net_add_range c) \<and>
        in_range (Potential_Score r) (potential_range c) \<and>
        in_range (Port_Utilization r) (utilization_range c) \<and>
        in_range (Market_Share_True r) (market_share_range c)"]
    by (simp add: row_matches_fun)
  show ?thesis
    using update_map_spec [OF assms(1), of c] by (simp add: 4)
qed

text \<open>
  Claim C5.  When a selection is stale, that is, set to a value that does not occur in
  its column among the rows that the selections above it leave, the main filter returns
  the empty frame and every option query below the stale level returns the empty list.
  The callbacks are total on every store that holds \<open>data\<close>: no branch of them raises.
\<close>

theorem stale_selection_empty:
  assumes "data_ref < length st"
  shows "(stale Province (selected_province c) (st ! data_ref) \<longrightarrow>
            fst (update_map st c) = []
          \<and> fst (update_district_filter st (selected_province c)) = []
          \<and> fst (update_subdistrict_filter st (selected_province c) (selected_district c)) = []
          \<and> fst (update_happyblock_filter st (selected_province c) (selected_district c)
                   (selected_subdistrict c)) = [])
       \<and> (stale District (selected_district c)
            (filter (\<lambda>r. sel_ok (selected_province c) (Province r)) (st ! data_ref)) \<longrightarrow>
            fst (update_map st c) = []
          \<and> fst (update_subdistrict_filter st (selected_province c) (selected_district c)) = []
          \<and> fst (update_happyblock_filter st (selected_province c) (selected_district c)
                   (selected_subdistrict c)) = [])
       \<and> (stale Sub_district (selected_subdistrict c)
            (filter (\<lambda>r. sel_ok (selected_province c) (Province r)
                           \<and> sel_ok (selected_district c) (District r)) (st ! data_ref)) \<longrightarrow>
            fst (update_map st c) = []
          \<and> fst (update_happyblock_filter st (selected_province c) (selected_district c)
                   (selected_subdistrict c)) = [])
       \<and> (stale Happy_Block (selected_happyblock c)
            (filter (\<lambda>r. sel_ok (selected_province c) (Province r)
                           \<and> sel_ok (selected_district c) (District r)
                           \<and> sel_ok (selected_subdistrict c) (Sub_district r))
               (st ! data_ref)) \<longrightarrow>
            fst (update_map st c) = [])"
  using stale_at_province [OF assms] stale_at_district [OF assms]
    stale_at_subdistrict [OF assms] stale_at_happyblock [OF assms]
  by blast

theorem stale_selection_empty_witness:
  "data_ref < length [demo_scored]
   \<and> stale District (selected_district stale_constraints)
       (filter (\<lambda>r. sel_ok (selected_province stale_constraints) (Province r))
          ([demo_scored] ! data_ref))
   \<and> filter (\<lambda>r. sel_ok (selected_province stale_constraints) (Province r))
          ([demo_scored] ! data_ref) = demo_scored
   \<and> fst (update_map [demo_scored] stale_constraints) = []
   \<and> fst (update_subdistrict_filter [demo_scored] (Some ''A'') (Some ''X'')) = []
   \<and> fst (update_happyblock_filter [demo_scored] (Some ''A'') (Some ''X'') None) = []"
proof -
  have h: "data_ref < length [demo_scored]" by (simp add: data_ref_def)
  have f: "filter (\<lambda>r. sel_ok (selected_province stale_constraints) (Province r))
          ([demo_scored] ! data_ref) = demo_scored"
    by (simp add: data_ref_def demo_scored_def stale_constraints_def sel_ok_def)
  have s: "stale District (selected_district stale_constraints)
       (filter (\<lambda>r. sel_ok (selected_province stale_constraints) (Province r))
          ([demo_scored] ! data_ref))"
    unfolding f by (simp add: stale_def stale_constraints_def demo_scored_def)
  have sel: "selected_province stale_constraints = Some ''A''"
    "selected_district stale_constraints = Some ''X''"
    "selected_subdistrict stale_constraints = None"
    by (simp_all add: stale_constraints_def)
  from stale_selection_empty [OF h, of stale_constraints] s
  have "fst (update_map [demo_scored] stale_constraints) = []
      \<and> fst (update_subdistrict_filter [demo_scored] (selected_province stale_constraints)
               (selected_district stale_constraints)) = []
      \<and> fst (update_happyblock_filter [demo_scored] (selected_province stale_constraints)
               (selected_district stale_constraints)
               (selected_subdistrict stale_constraints)) = []"
    by blast
  with h f s show ?thesis by (simp only: sel simp_thms)
qed

subsection \<open>The base frame is never changed\<close>

lemma new_frame_prefix: "prefix st (snd (new_frame st f))"
  by (simp add: new_frame_def)

lemma frame_select_prefix: "prefix st (snd (frame_select st r keep))"
  by (simp add: frame_select_def new_frame_prefix)

lemma frame_copy_prefix: "prefix st (snd (frame_copy st r))"
  by (simp add: frame_copy_def new_frame_prefix)

lemma narrow_by_prefix: "prefix (snd fs) (snd (narrow_by column selected fs))"
  by (cases fs) (simp add: narrow_by_def frame_select_prefix)

lemma update_district_filter_prefix: "prefix st (snd (update_district_filter st p))"
  by (simp add: update_district_filter_def split_beta frame_select_prefix)

lemma update_subdistrict_filter_prefix: "prefix st (snd (update_subdistrict_filter st p d))"
proof -
  let ?a = "frame_copy st data_ref"
  let ?b = "narrow_by Province p ?a"
  let ?c = "narrow_by District d ?b"
  have "prefix st (snd ?a)" by (rule frame_copy_prefix)
  also have "prefix (snd ?a) (snd ?b)" by (rule narrow_by_prefix)
  also have "prefix (snd ?b) (snd ?c)" by (rule narrow_by_prefix)
  finally show ?thesis by (simp add: update_subdistrict_filter_def split_beta)
qed

lemma update_happyblock_filter_prefix:
  "prefix st (snd (update_happyblock_filter st p d s))"
proof -
  let ?a = "frame_copy st data_ref"
  let ?b = "narrow_by Province p ?a"
  let ?c = "narrow_by District d ?b"
  let ?d = "narrow_by Sub_district s ?c"
  have "prefix st (snd ?a)" by (rule frame_copy_prefix)
  also have "prefix (snd ?a) (snd ?b)" by (rule narrow_by_prefix)
  also have "prefix (snd ?b) (snd ?c)" by (rule narrow_by_prefix)
  also have "prefix (snd ?c) (snd ?d)" by (rule narrow_by_prefix)
  finally show ?thesis by (simp add: update_happyblock_filter_def split_beta)
qed

lemma update_map_prefix: "prefix st (snd (update_map st c))"
proof -
  let ?a = "frame_copy st data_ref"
  let ?b = "narrow_by Province (selected_province c) ?a"
  let ?c = "narrow_by District (selected_district c) ?b"
  let ?d = "narrow_by Sub_district (selected_subdistrict c) ?c"
  let ?e = "narrow_by Happy_Block (selected_happyblock c) ?d"
  let ?f = "frame_select (snd ?e) (fst ?e) (range_mask c)"
  have "prefix st (snd ?a)" by (rule frame_copy_prefix)
  also have "prefix (snd ?a) (snd ?b)" by (rule narrow_by_prefix)
  also have "prefix (snd ?b) (snd ?c)" by (rule narrow_by_prefix)
  also have "prefix (snd ?c) (snd ?d)" by (rule narrow_by_prefix)
  also have "prefix (snd ?d) (snd ?e)" by (rule narrow_by_prefix)
  also have "prefix (snd ?e) (snd ?f)" by (rule frame_select_prefix)
  finally have "prefix st (snd ?f)" .
  moreover have "snd (update_map st c) = snd ?f"
    by (simp add: update_map_def split_beta)
  ultimately show ?thesis by simp
qed

lemma run_query_prefix: "prefix st (snd (run_query st q))"
  by (cases q)
    (simp_all add: split_beta update_district_filter_prefix update_subdistrict_filter_prefix
      update_happyblock_filter_prefix update_map_prefix)

lemma run_queries_prefix: "prefix st (snd (run_queries st qs))"
proof (induction qs arbitrary: st)
  case Nil
  show ?case by simp
next
  case (Cons q qs)
  obtain a st1 where 1: "run_query st q = (a, st1)" by (cases "run_query st q")
  obtain as st2 where 2: "run_queries st1 qs = (as, st2)" by (cases "run_queries st1 qs")
  have "prefix st st1" using run_query_prefix [of st q] 1 by simp
  also have "prefix st1 st2" using Cons.IH [of st1] 2 by simp
  finally show ?case using 1 2 by simp
qed

text \<open>
  Claim C9.  Whatever sequence of option queries and map queries runs, every frame that
  was in the store before is in it afterwards, unchanged and at the same reference; in
  particular the frame \<open>data\<close>, with every column of every row, is what it was.  The
  frames the queries build are new entries after the old ones.
\<close>

theorem base_frame_unchanged:
  assumes "data_ref < length st"
  shows "snd (run_queries st qs) ! data_ref = st ! data_ref
       \<and> take (length st) (snd (run_queries st qs)) = st"
proof -
  have p: "prefix st (snd (run_queries st qs))" by (rule run_queries_prefix)
  then have "snd (run_queries st qs) ! data_ref = st ! data_ref"
    using assms by (rule prefix_nth)
  moreover from p have "take (length st) (snd (run_queries st qs)) = st"
    by (auto simp: prefix_def)
  ultimately show ?thesis by simp
qed

theorem base_frame_unchanged_witness:
  "data_ref < length [demo_scored]
   \<and> snd (run_queries [demo_scored] demo_queries) ! data_ref = demo_scored"
proof -
  have h: "data_ref < length [demo_scored]" by (simp add: data_ref_def)
  from base_frame_unchanged [OF h, of demo_queries] h show ?thesis
    by (simp add: data_ref_def)
qed

subsection \<open>Rows without a number in a range column\<close>

lemma in_range_NaN [simp]: "in_range NaN rng = False"
  by (simp add: in_range_def fge_def)

text \<open>
  Claim C10.  A row of \<open>data\<close> whose Net Add, Potential Score, Port Utilization (%) or
  Market Share True (%) is NaN is in the result of the main filter for no constraint
  set whatever, so also not for the ranges the sliders start with.
\<close>

theorem nan_rows_excluded:
  assumes "data_ref < length st"
    and "is_nan (Net_Add r) \<or> is_nan (Potential_Score r) \<or> is_nan (Port_Utilization r)
         \<or> is_nan (Market_Share_True r)"
  shows "r \<notin> set (fst (update_map st c))"
proof -
  have "\<not> row_matches c r"
  proof
    assume m: "row_matches c r"
    from assms(2) consider "Net_Add r = NaN" | "Potential_Score r = NaN"
      | "Port_Utilization r = NaN" | "Market_Share_True r = NaN"
      by (metis is_nan.elims(2))
    then show False using m by cases (simp_all add: row_matches_def)
  qed
  then show ?thesis using update_map_spec [OF assms(1), of c] by simp
qed

theorem nan_rows_excluded_witness:
  "data_ref < length [nan_frame] \<and> is_nan (Net_Add nan_row)
   \<and> nan_row \<in> set ([nan_frame] ! data_ref)
   \<and> sel_ok (selected_province (default_constraints nan_frame)) (Province nan_row)
   \<and> net_add_range (default_constraints nan_frame) = (Fin 8, Fin 8)
   \<and> nan_row \<notin> set (fst (update_map [nan_frame] (default_constraints nan_frame)))"
proof -
  have h: "data_ref < length [nan_frame]" by (simp add: data_ref_def)
  have n: "is_nan (Net_Add nan_row)" by (simp add: nan_row_def)
  have d: "net_add_range (default_constraints nan_frame) = (Fin 8, Fin 8)"
    by (simp add: default_constraints_def nan_frame_def nan_row_def demo_scored_def
        series_min_def series_max_def)
  from nan_rows_excluded [OF h, of nan_row "default_constraints nan_frame"] n h d
  show ?thesis
    by (simp add: data_ref_def nan_frame_def default_constraints_def sel_ok_def)
qed

subsection \<open>The churn factor\<close>

lemma calc_1_C_nth:
  assumes "k < length data"
  shows "calc_1_C data ! k =
           fsub (Fin 1)
             (if fgt (fdiv (Churn (data ! k)) (Port_Use (data ! k))) (Fin 1) then Fin 1
              else fdiv (Churn (data ! k)) (Port_Use (data ! k)))"
  using assms
  by (simp add: calc_1_C_def rsub_scalar_def clip_upper_def series_div_def)

lemma preprocess_col_1_C:
  assumes "preprocess data = Inr out" and "k < length data"
  shows "col_1_C (out ! k) = calc_1_C data ! k"
proof -
  from assms obtain s where
    "out ! k = assign (data ! k)
           (calc_H data ! k, calc_I data ! k, calc_1_C data ! k, calc_M data ! k, s ! k,
            score_final
              (score_raw (calc_H data) (calc_I data) (calc_1_C data) (calc_M data) s) ! k)"
    by (rule preprocess_nth)
  then show ?thesis by simp
qed

text \<open>
  Claim C6.  For a row with Churn \<open>c \<ge> 0\<close> and Port Use \<open>p > 0\<close>, the column \<open>1-C\<close> holds
  one minus the ratio \<open>c / p\<close> capped at 1; it is never negative, and it is 0 when
  Churn exceeds Port Use.
\<close>

theorem churn_factor_capped:
  assumes "preprocess data = Inr out" and "k < length data"
    and "Churn (data ! k) = Fin c" and "Port_Use (data ! k) = Fin p"
    and "0 \<le> c" and "0 < p"
  shows "col_1_C (out ! k) = Fin (1 - min (c / p) 1)
       \<and> nonneg (col_1_C (out ! k))
       \<and> (p < c \<longrightarrow> col_1_C (out ! k) = Fin 0)"
proof -
  have "col_1_C (out ! k) = calc_1_C data ! k"
    using assms(1,2) by (rule preprocess_col_1_C)
  also have "\<dots> = fsub (Fin 1) (if fgt (Fin (c / p)) (Fin 1) then Fin 1 else Fin (c / p))"
    using assms(2,3,4,6) by (simp add: calc_1_C_nth)
  also have "\<dots> = Fin (1 - min (c / p) 1)"
    by (simp add: fgt_def fsub_def min_def)
  finally have e: "col_1_C (out ! k) = Fin (1 - min (c / p) 1)" .
  have "p < c \<Longrightarrow> min (c / p) 1 = 1"
    using assms(6) by (simp add: min_def)
  with e show ?thesis by auto
qed

theorem churn_factor_capped_witness:
  "preprocess demo_data = Inr demo_scored \<and> 1 < length demo_data
   \<and> Churn (demo_data ! 1) = Fin 9 \<and> Port_Use (demo_data ! 1) = Fin 3
   \<and> col_1_C (demo_scored ! 1) = Fin 0"
proof -
  have h1: "preprocess demo_data = Inr demo_scored" by (rule preprocess_demo)
  have h2: "1 < length demo_data" by (simp add: demo_data_def)
  have h3: "Churn (demo_data ! 1) = Fin 9" by (simp add: demo_data_def)
  have h4: "Port_Use (demo_data ! 1) = Fin 3" by (simp add: demo_data_def)
  from churn_factor_capped [OF h1 h2 h3 h4] h1 h2 h3 h4 show ?thesis by simp
qed

subsection \<open>The speed factor\<close>

lemma split_scan_token:
  assumes "\<forall>ch \<in> set t. \<not> is_space ch" and "is_space w" and "cur \<noteq> [] \<or> t \<noteq> []"
  shows "split_scan cur (t @ w # u) = (rev cur @ t) # split_scan [] u"
  using assms
proof (induction t arbitrary: cur)
  case Nil
  then show ?case by simp
next
  case (Cons a t)
  then have "split_scan (a # cur) (t @ w # u) = (rev (a # cur) @ t) # split_scan [] u"
    by (intro Cons.IH) simp_all
  with Cons.prems show ?case by simp
qed

lemma py_split_first:
  assumes "t \<noteq> []" and "\<forall>ch \<in> set t. \<not> is_space ch" and "is_space w"
  shows "py_split (t @ w # u) = t # py_split u"
  using split_scan_token [OF assms(2,3), of "[]" u] assms(1)
  by (simp add: py_split_def)

text \<open>
  Claim C7.  For a True Speed string that is a token without white space, one white
  space character and anything after it, the factor S is \<open>float\<close> of the token divided
  by 1000, whatever follows (and the same exception when \<open>float\<close> rejects the token).
  \<open>850 Mbps\<close> gives 0.85 and \<open>1200 Mbps\<close> gives 1.2.
\<close>

theorem speed_factor_leading_token:
  "(t \<noteq> [] \<and> (\<forall>ch \<in> set t. \<not> is_space ch) \<and> is_space w \<longrightarrow>
      speed_to_S (t @ w # u)
        = (case py_float t of Inl e \<Rightarrow> Inl e | Inr v \<Rightarrow> Inr (fdiv v (Fin 1000))))
   \<and> speed_to_S ''850 Mbps'' = Inr (Fin 0.85)
   \<and> speed_to_S ''1200 Mbps'' = Inr (Fin 1.2)"
proof -
  have a: "speed_to_S (t @ w # u)
        = (case py_float t of Inl e \<Rightarrow> Inl e | Inr v \<Rightarrow> Inr (fdiv v (Fin 1000)))"
    if "t \<noteq> []" "\<forall>ch \<in> set t. \<not> is_space ch" "is_space w"
    using py_split_first [OF that, of u] by (simp add: speed_to_S_def)
  have b: "speed_to_S ''850 Mbps'' = Inr (Fin 0.85)" by code_simp
  have c: "speed_to_S ''1200 Mbps'' = Inr (Fin 1.2)" by code_simp
  from a b c show ?thesis by blast
qed

lemma py_float_850: "py_float ''850'' = Inr (Fin 850)"
  by code_simp

theorem speed_factor_leading_token_witness:
  "is_space CHR '' ''
   \<and> speed_to_S (''850'' @ CHR '' '' # ''Gbps per second'') = Inr (Fin (17 / 20))"
proof -
  have h1: "''850'' \<noteq> []" by simp
  have h2: "\<forall>ch \<in> set ''850''. \<not> is_space ch" by (simp add: is_space_def)
  have h3: "is_space CHR '' ''" by (simp add: is_space_def)
  from speed_factor_leading_token [of "''850''" "CHR '' ''" "''Gbps per second''"] h1 h2 h3
  have "speed_to_S (''850'' @ CHR '' '' # ''Gbps per second'')
          = (case py_float ''850'' of Inl e \<Rightarrow> Inl e | Inr v \<Rightarrow> Inr (fdiv v (Fin 1000)))"
    by blast
  then have "speed_to_S (''850'' @ CHR '' '' # ''Gbps per second'') = Inr (Fin (17 / 20))"
    by (simp add: py_float_850)
  with h3 show ?thesis by blast
qed

subsection \<open>Loading\<close>

lemma good_rows_append: "good_rows (xs @ ys) = good_rows xs @ good_rows ys"
  by (induction xs rule: good_rows.induct) simp_all

text \<open>
  Claim C8.  A \<open>ParserError\<close> of the reader and any other exception of the reader each
  print their own diagnostic, and after either the process has exited: nothing else is
  printed, there is no frame and nothing is served.  A bad line in a file that can be
  read changes neither what is printed nor the frame beyond its own absence: the load
  succeeds with the rows of the other lines.
\<close>

theorem load_failures_and_bad_lines:
  "startup (Parser_Failure m)
     = ([Print_Exn ''ParserError while loading the dataset:'' (ParserError m)], Exited)
   \<and> startup (Other_Failure m)
     = ([Print_Exn ''Unexpected error while loading the dataset:'' (Other_Exception m)], Exited)
   \<and> fst (startup (Parser_Failure m)) \<noteq> fst (startup (Other_Failure m'))
   \<and> load (Lines ls) = ([Print ''Dataset loaded successfully.''], Some (good_rows ls))
   \<and> load (Lines (xs @ Bad_Line # ys)) = load (Lines (xs @ ys))"
  by (simp add: startup_def load_def read_csv_def good_rows_append)

subsection \<open>The bounds of the score\<close>

lemma not_nan_Fin: "\<not> is_nan (Fin a)"
  by simp

lemma nonneg_Fin: "nonneg x \<Longrightarrow> \<exists>a. x = Fin a \<and> 0 \<le> a"
  by (cases x) simp_all

lemma positive_Fin: "positive x \<Longrightarrow> \<exists>a. x = Fin a \<and> 0 < a"
  by (cases x) simp_all

lemma fmax2_Fin: "fmax2 (Fin a) (Fin b) = Fin (max a b)"
  by (simp add: fmax2_def max_def)

lemma foldl_fmax2_Fin:
  assumes "\<forall>x \<in> set ys. \<exists>a. x = Fin a"
  shows "\<exists>m. foldl fmax2 (Fin y) ys = Fin m \<and> y \<le> m
            \<and> (\<forall>a. Fin a \<in> set ys \<longrightarrow> a \<le> m) \<and> (m = y \<or> Fin m \<in> set ys)"
  using assms
proof (induction ys arbitrary: y)
  case Nil
  show ?case by simp
next
  case (Cons x ys)
  then obtain a where x: "x = Fin a" by auto
  from Cons.prems have "\<forall>x \<in> set ys. \<exists>a. x = Fin a" by simp
  from Cons.IH [OF this, of "max y a"]
  obtain m where m: "foldl fmax2 (Fin (max y a)) ys = Fin m" "max y a \<le> m"
    "\<forall>b. Fin b \<in> set ys \<longrightarrow> b \<le> m" "m = max y a \<or> Fin m \<in> set ys"
    by blast
  have "foldl fmax2 (Fin y) (x # ys) = Fin m"
    using m(1) x by (simp add: fmax2_Fin)
  moreover have "y \<le> m" using m(2) by simp
  moreover have "\<forall>b. Fin b \<in> set (x # ys) \<longrightarrow> b \<le> m"
    using m(2,3) x by auto
  moreover have "m = y \<or> Fin m \<in> set (x # ys)"
    using m(4) x by (auto simp: max_def split: if_splits)
  ultimately show ?case by blast
qed

lemma series_max_Fin:
  assumes "xs \<noteq> []" and "\<forall>x \<in> set xs. \<exists>a. x = Fin a"
  shows "\<exists>m. series_max xs = Fin m \<and> Fin m \<in> set xs \<and> (\<forall>a. Fin a \<in> set xs \<longrightarrow> a \<le> m)"
proof -
  have f: "filter (\<lambda>x. \<not> is_nan x) xs = xs"
    using assms(2) by (auto simp: filter_id_conv)
  from assms obtain b ys where xs: "xs = Fin b # ys"
    by (cases xs) auto
  with assms(2) have "\<forall>x \<in> set ys. \<exists>a. x = Fin a" by simp
  from foldl_fmax2_Fin [OF this, of b]
  obtain m where m: "foldl fmax2 (Fin b) ys = Fin m" "b \<le> m"
    "\<forall>a. Fin a \<in> set ys \<longrightarrow> a \<le> m" "m = b \<or> Fin m \<in> set ys"
    by blast
  have "series_max xs = Fin m"
    unfolding series_max_def f using xs m(1) by simp
  moreover have "Fin m \<in> set xs" using m(4) xs by auto
  moreover have "\<forall>a. Fin a \<in> set xs \<longrightarrow> a \<le> m" using m(2,3) xs by auto
  ultimately show ?thesis by blast
qed

text \<open>A column of non-negative numbers with a positive one, divided by its maximum.\<close>

lemma normalised_column:
  assumes "\<forall>r \<in> set data. nonneg (column r)" and "\<exists>r \<in> set data. positive (column r)"
  shows "(\<forall>r \<in> set data. in_unit (fdiv (column r) (series_max (map column data))))
       \<and> (\<exists>r \<in> set data. fdiv (column r) (series_max (map column data)) = Fin 1)"
proof -
  from assms(2) obtain r0 a0 where r0: "r0 \<in> set data" "column r0 = Fin a0" "0 < a0"
    using positive_Fin by blast
  have ne: "map column data \<noteq> []" using r0(1) by auto
  have fin: "\<forall>x \<in> set (map column data). \<exists>a. x = Fin a"
    using assms(1) nonneg_Fin by fastforce
  from series_max_Fin [OF ne fin]
  obtain m where m: "series_max (map column data) = Fin m" "Fin m \<in> set (map column data)"
    "\<forall>a. Fin a \<in> set (map column data) \<longrightarrow> a \<le> m"
    by blast
  have "Fin a0 \<in> set (map column data)" using r0 by force
  with m(3) r0(3) have pos: "0 < m" by fastforce
  have "in_unit (fdiv (column r) (Fin m))" if "r \<in> set data" for r
  proof -
    from assms(1) that obtain a where a: "column r = Fin a" "0 \<le> a"
      using nonneg_Fin by blast
    with that have "Fin a \<in> set (map column data)" by force
    with m(3) have "a \<le> m" by blast
    with a pos show ?thesis by simp
  qed
  moreover from m(2) obtain r1 where "r1 \<in> set data" "column r1 = Fin m" by auto
  with pos have "\<exists>r \<in> set data. fdiv (column r) (Fin m) = Fin 1" by force
  ultimately show ?thesis by (simp add: m(1))
qed

lemma churn_factor_in_unit:
  assumes "nonneg c" and "nonneg p" and "positive p \<or> positive c"
  shows "in_unit (fsub (Fin 1) (if fgt (fdiv c p) (Fin 1) then Fin 1 else fdiv c p))"
proof -
  from assms(1) obtain a where a: "c = Fin a" "0 \<le> a" using nonneg_Fin by blast
  from assms(2) obtain b where b: "p = Fin b" "0 \<le> b" using nonneg_Fin by blast
  show ?thesis
  proof (cases "b = 0")
    case True
    with assms(3) a b have "0 < a" by simp
    with True a b show ?thesis by (simp add: signed_inf_def fgt_def fsub_def)
  next
    case False
    define q where "q = a / b"
    from False b a have q: "fdiv c p = Fin q" "0 \<le> q" by (simp_all add: q_def)
    show ?thesis
    proof (cases "q \<le> 1")
      case True
      then have "\<not> fgt (Fin q) (Fin 1)" by (simp add: fgt_def)
      with q True show ?thesis by (simp add: fsub_def)
    next
      case False
      then have "fgt (Fin q) (Fin 1)" by (simp add: fgt_def)
      with q show ?thesis by (simp add: fsub_def)
    qed
  qed
qed

lemma weighted_sum_Fin:
  assumes "in_unit h" and "in_unit i" and "in_unit c" and "in_unit m" and "nonneg s"
  shows "\<exists>w. weighted_sum h i c m s = Fin w \<and> 0 \<le> w \<and> (h = Fin 1 \<longrightarrow> 0 < w)"
proof -
  obtain h' where h: "h = Fin h'" "0 \<le> h'" using assms(1) by (cases h) simp_all
  obtain i' where i: "i = Fin i'" "0 \<le> i'" using assms(2) by (cases i) simp_all
  obtain c' where c: "c = Fin c'" "0 \<le> c'" using assms(3) by (cases c) simp_all
  obtain m' where m: "m = Fin m'" "0 \<le> m'" using assms(4) by (cases m) simp_all
  obtain s' where s: "s = Fin s'" "0 \<le> s'" using assms(5) by (cases s) simp_all
  have "weighted_sum h i c m s
          = Fin (0.40 * h' + 0.25 * i' + 0.20 * c' + 0.05 * m' + 0.10 * s')"
    by (simp add: weighted_sum_def h i c m s)
  moreover have "0 \<le> 0.40 * h' + 0.25 * i' + 0.20 * c' + 0.05 * m' + 0.10 * s'"
    using h i c m s by simp
  moreover have "0 < 0.40 * h' + 0.25 * i' + 0.20 * c' + 0.05 * m' + 0.10 * s'" if "h' = 1"
  proof -
    have "0 \<le> 0.25 * i' + 0.20 * c' + 0.05 * m' + 0.10 * s'" using i c m s by simp
    with that show ?thesis by simp
  qed
  ultimately show ?thesis using h by auto
qed

text \<open>
  Claim C2, as the code has it.  When every Household, Install, Churn, Port Use and
  Market Share True value is finite and not negative, every parsed speed is finite and
  not negative, each of the columns Household, Install and Market Share True has a
  positive value, and no row has Churn and Port Use both zero, then after preprocessing
  every Potential Score lies in [0, 100] and one of them is exactly 100.
\<close>

theorem score_bounds:
  assumes "preprocess data = Inr out"
    and "list_all values_nonneg data"
    and "list_all speed_nonneg out"
    and "list_all ratio_defined data"
    and "has_positive Household data"
    and "has_positive Install data"
    and "has_positive Market_Share_True data"
  shows "score_invariant out"
proof -
  have len: "length out = length data" using assms(1) by (rule preprocess_length)
  let ?mh = "series_max (map Household data)"
  let ?mi = "series_max (map Install data)"
  let ?mm = "series_max (map Market_Share_True data)"
  have vals: "\<forall>r \<in> set data. values_nonneg r"
    using assms(2) by (simp add: list_all_iff)
  have H: "(\<forall>r \<in> set data. in_unit (fdiv (Household r) ?mh))
         \<and> (\<exists>r \<in> set data. fdiv (Household r) ?mh = Fin 1)"
    using vals assms(5)
    by (intro normalised_column) (auto simp: values_nonneg_def has_positive_def list_ex_iff)
  have I: "\<forall>r \<in> set data. in_unit (fdiv (Install r) ?mi)"
    using vals assms(6) normalised_column [of data Install]
    by (auto simp: values_nonneg_def has_positive_def list_ex_iff)
  have M: "\<forall>r \<in> set data. in_unit (fdiv (Market_Share_True r) ?mm)"
    using vals assms(7) normalised_column [of data Market_Share_True]
    by (auto simp: values_nonneg_def has_positive_def list_ex_iff)
  have cells: "col_H (out ! k) = fdiv (Household (data ! k)) ?mh
             \<and> col_I (out ! k) = fdiv (Install (data ! k)) ?mi
             \<and> col_M (out ! k) = fdiv (Market_Share_True (data ! k)) ?mm
             \<and> col_1_C (out ! k) = calc_1_C data ! k
             \<and> Potential_Score (out ! k)
                 = fmul (fdiv (raw_of_row (out ! k)) (series_max (map raw_of_row out))) (Fin 100)"
    if "k < length data" for k
    using preprocess_cells [OF assms(1) that] preprocess_col_1_C [OF assms(1) that] by simp
  have raw: "\<exists>w. raw_of_row (out ! k) = Fin w \<and> 0 \<le> w
               \<and> (col_H (out ! k) = Fin 1 \<longrightarrow> 0 < w)"
    if k: "k < length data" for k
  proof -
    have d: "data ! k \<in> set data" using k by simp
    have o: "out ! k \<in> set out" using k len by simp
    from d vals have v: "values_nonneg (data ! k)" by blast
    from d assms(4) have rd: "ratio_defined (data ! k)" by (simp add: list_all_iff)
    have h: "in_unit (col_H (out ! k))" using cells [OF k] H d by simp
    have i: "in_unit (col_I (out ! k))" using cells [OF k] I d by simp
    have m: "in_unit (col_M (out ! k))" using cells [OF k] M d by simp
    have c: "in_unit (col_1_C (out ! k))"
      using cells [OF k] v rd churn_factor_in_unit [of "Churn (data ! k)" "Port_Use (data ! k)"]
      by (simp add: calc_1_C_nth [OF k] values_nonneg_def ratio_defined_def)
    have s: "nonneg (col_S (out ! k))"
      using o assms(3) by (simp add: list_all_iff speed_nonneg_def)
    from weighted_sum_Fin [OF h i c m s] show ?thesis by (simp add: raw_of_row_def)
  qed
  have ne: "map raw_of_row out \<noteq> []"
    using H len by auto
  have fin: "\<forall>x \<in> set (map raw_of_row out). \<exists>a. x = Fin a"
  proof
    fix x assume "x \<in> set (map raw_of_row out)"
    then obtain k where "k < length out" "x = raw_of_row (out ! k)"
      by (auto simp: in_set_conv_nth)
    with raw [of k] len show "\<exists>a. x = Fin a" by auto
  qed
  from series_max_Fin [OF ne fin]
  obtain mx where mx: "series_max (map raw_of_row out) = Fin mx"
    "Fin mx \<in> set (map raw_of_row out)"
    "\<forall>a. Fin a \<in> set (map raw_of_row out) \<longrightarrow> a \<le> mx"
    by blast
  from H obtain r1 where "r1 \<in> set data" "fdiv (Household r1) ?mh = Fin 1" by blast
  then obtain k1 where k1: "k1 < length data" "fdiv (Household (data ! k1)) ?mh = Fin 1"
    by (auto simp: in_set_conv_nth)
  with cells [OF k1(1)] have "col_H (out ! k1) = Fin 1" by simp
  with raw [OF k1(1)] obtain w1 where w1: "raw_of_row (out ! k1) = Fin w1" "0 < w1" by auto
  have "Fin w1 \<in> set (map raw_of_row out)"
    using w1(1) k1(1) len by (metis length_map nth_map nth_mem)
  with mx(3) w1(2) have pos: "0 < mx" by fastforce
  have bounds: "score_in_bounds (out ! k)" if k: "k < length data" for k
  proof -
    from raw [OF k] obtain w where w: "raw_of_row (out ! k) = Fin w" "0 \<le> w" by auto
    have "Fin w \<in> set (map raw_of_row out)"
      using w(1) k len by (metis length_map nth_map nth_mem)
    with mx(3) have "w \<le> mx" by blast
    have "Potential_Score (out ! k) = Fin (w / mx * 100)"
      using cells [OF k] w(1) mx(1) pos by simp
    moreover have "0 \<le> w / mx * 100" using w(2) pos by simp
    moreover have "w / mx * 100 \<le> 100" using \<open>w \<le> mx\<close> pos by (simp add: field_simps)
    ultimately show ?thesis by (simp add: score_in_bounds_def in_0_100_def)
  qed
  have all: "list_all score_in_bounds out"
    using bounds len by (auto simp: list_all_iff in_set_conv_nth)
  from mx(2) obtain k2 where k2: "k2 < length out" "raw_of_row (out ! k2) = Fin mx"
    by (auto simp: in_set_conv_nth)
  then have "Potential_Score (out ! k2) = Fin (mx / mx * 100)"
    using cells [of k2] mx(1) pos len by simp
  with pos have "score_is_100 (out ! k2)" by (simp add: score_is_100_def)
  with k2(1) have "list_ex score_is_100 out"
    by (auto simp: list_ex_iff)
  with all show ?thesis by (simp add: score_invariant_def)
qed

theorem score_bounds_witness:
  "preprocess demo_data = Inr demo_scored \<and> list_all values_nonneg demo_data
   \<and> list_all speed_nonneg demo_scored \<and> list_all ratio_defined demo_data
   \<and> has_positive Household demo_data \<and> has_positive Install demo_data
   \<and> has_positive Market_Share_True demo_data
   \<and> score_invariant demo_scored
   \<and> map Potential_Score demo_scored = [Fin 100, Fin (800 / 19)]"
proof -
  have h1: "preprocess demo_data = Inr demo_scored" by (rule preprocess_demo)
  have h2: "list_all values_nonneg demo_data" by (simp add: demo_data_def values_nonneg_def)
  have h3: "list_all speed_nonneg demo_scored" by (simp add: demo_scored_def speed_nonneg_def)
  have h4: "list_all ratio_defined demo_data" by (simp add: demo_data_def ratio_defined_def)
  have h5: "has_positive Household demo_data" by (simp add: demo_data_def has_positive_def)
  have h6: "has_positive Install demo_data" by (simp add: demo_data_def has_positive_def)
  have h7: "has_positive Market_Share_True demo_data"
    by (simp add: demo_data_def has_positive_def)
  have v: "map Potential_Score demo_scored = [Fin 100, Fin (800 / 19)]"
    by (simp add: demo_scored_def)
  from score_bounds [OF h1 h2 h3 h4 h5 h6 h7] h1 h2 h3 h4 h5 h6 h7 v
  show ?thesis by blast
qed

lemma preprocess_zero_port: "preprocess zero_port_data = Inr zero_port_scored"
  by (simp add: preprocess_def zero_port_data_def zero_port_scored_def calc_H_def calc_I_def
      calc_1_C_def calc_M_def calc_S_def speed_1000 speed_500 series_max_def fmax2_def
      div_scalar_def mul_scalar_def times_scalar_def rsub_scalar_def series_div_def
      series_add_def clip_upper_def score_raw_def score_final_def fgt_def fsub_def
      assign_def W1_def W2_def W3_def W4_def W5_def)

text \<open>
  With a row whose Churn and Port Use are both zero the ratio is \<open>0 / 0\<close>: all loaded
  values are non-negative and the raw scores are not all zero, yet that row's score is
  NaN and so outside [0, 100].
\<close>

theorem score_bounds_zero_ports_counterexample:
  "list_all values_nonneg zero_port_data
   \<and> preprocess zero_port_data = Inr zero_port_scored
   \<and> list_all speed_nonneg zero_port_scored
   \<and> list_ex raw_nonzero zero_port_scored
   \<and> \<not> score_invariant zero_port_scored"
proof -
  have "list_all values_nonneg zero_port_data"
    by (simp add: zero_port_data_def values_nonneg_def)
  moreover have "list_all speed_nonneg zero_port_scored"
    by (simp add: zero_port_scored_def speed_nonneg_def)
  moreover have "list_ex raw_nonzero zero_port_scored"
    by (simp add: zero_port_scored_def raw_nonzero_def raw_of_row_def weighted_sum_def)
  moreover have "\<not> score_invariant zero_port_scored"
    by (simp add: zero_port_scored_def score_invariant_def score_in_bounds_def in_0_100_def)
  ultimately show ?thesis using preprocess_zero_port by simp
qed

end
